theory Spec2Isabelle
  imports Main
begin

section \<open>The settings module of the pad client (src/static/js/settings.js)\<close>

text \<open>
  The module keeps a table of settings. Each setting carries one value per scope; the
  effective value of a setting is found by scanning the scopes. The JavaScript is embedded
  function by function: module variables become the fields of a record that every
  function takes and returns, an exception becomes a returned error next to the state
  reached when it was raised (what was assigned before a \<open>throw\<close> stays assigned), and the
  calls into the browser (console, widgets, cookie, change callbacks) are appended to a
  trace. A call into the browser is taken to return normally; the exceptions of the model
  are those the module raises itself, by \<open>throw\<close> or by reading a property of \<open>null\<close> or
  \<open>undefined\<close>.
\<close>

subsection \<open>Values\<close>

text \<open>
  The values a setting can hold: \<open>undefined\<close>, \<open>null\<close>, booleans, integer numbers and
  strings. A property that may be missing from an object literal of the table
  (\<open>name\<close>, \<open>scope\<close>, \<open>type\<close>, \<open>id\<close>) is a \<open>string option\<close>, with \<open>None\<close> for
  \<open>undefined\<close>.
\<close>

datatype jsval = JUndefined | JNull | JBool bool | JNum int | JStr string

text \<open>What \<open>if(v)\<close> and \<open>!v\<close> test.\<close>

fun truthy :: "jsval \<Rightarrow> bool" where
  "truthy JUndefined = False"
| "truthy JNull = False"
| "truthy (JBool b) = b"
| "truthy (JNum n) = (n \<noteq> 0)"
| "truthy (JStr s) = (s \<noteq> [])"

text \<open>\<open>!f\<close> for a property that is a string or missing: true when missing or empty.\<close>

fun falsy_field :: "string option \<Rightarrow> bool" where
  "falsy_field None = True"
| "falsy_field (Some s) = (s = [])"

text \<open>String concatenation with such a property: a missing one prints as \<open>undefined\<close>.\<close>

fun field_str :: "string option \<Rightarrow> string" where
  "field_str None = ''undefined''"
| "field_str (Some s) = s"

text \<open>
  A property that should hold a function: \<open>Absent\<close> is any falsy value (the table writes
  \<open>null\<close>), \<open>NonFunction\<close> a truthy value that cannot be called, \<open>Function f\<close> a function.
\<close>

datatype 'f jsfun = Absent | NonFunction | Function 'f

datatype error = Thrown string | TypeError

subsection \<open>The table\<close>

text \<open>
  A computed binding's function is represented by its result as a function of the query
  mapping \<open>urlVars\<close> (the one such function of the table reads \<open>urlVars\<close> and nothing
  else). A change callback is an outside observer: the model records that it was called
  and with what value, and takes it to return without calling back into the module.
\<close>

type_synonym urlvars = "string \<Rightarrow> string option"

record control =
  ctl_scope :: "string option"
  ctl_type :: "string option"
  ctl_id :: "string option"
  ctl_name :: "string option"
  ctl_callback :: "(urlvars \<Rightarrow> jsval) jsfun"

text \<open>
  \<open>s_val\<close> is the property \<open>val\<close>: missing (\<open>None\<close>) until \<open>loadSettings\<close> creates it, then
  an object read at a scope name, \<open>JUndefined\<close> where nothing was stored.
  \<open>s_controls\<close> is \<open>None\<close> when the property \<open>controls\<close> is missing.
\<close>

record setting =
  s_name :: "string option"
  s_defaultValue :: jsval
  s_callback :: "unit jsfun"
  s_controls :: "control list option"
  s_val :: "(string \<Rightarrow> jsval) option"

text \<open>An element of the page as jQuery shows it: its tag name in lower case and its \<open>type\<close> attribute.\<close>

record element =
  el_tag :: string
  el_type :: "string option"

type_synonym export = "string \<rightharpoonup> (string \<rightharpoonup> jsval)"

datatype effect =
    ConsoleLog string
  | SetCheckbox string jsval
  | SetSelectVal string jsval
  | CallbackCall "string option" jsval
  | SaveCookie string export

text \<open>
  The module variables \<open>settings\<close>, \<open>ignoredScopes\<close>, \<open>loaded\<close> and \<open>urlVars\<close>, the page
  (\<open>document\<close>, read by selector) and the trace of calls made to the outside.
  \<open>urlVars\<close> is what \<open>getUrlVars\<close> returned when the module was evaluated, read at the name
  of a parameter: the string after the \<open>=\<close> of that parameter in the query, or \<open>undefined\<close>.
  It is taken as given; the names under which the array answers by itself (\<open>length\<close>, an
  index, a method name) are not parameters of the table and are left out.
\<close>

record world =
  settings :: "setting list"
  ignoredScopes :: "string list"
  loaded :: bool
  urlVars :: urlvars
  document :: "string \<Rightarrow> element option"
  trace :: "effect list"

definition scopes :: "string list" where
  "scopes = [''local'', ''global'', ''get'']"

subsection \<open>getSetting and getValue\<close>

text \<open>
  \<open>getSetting\<close> returns the first object of the table whose name equals the argument, or
  \<open>null\<close>. The argument is a string or \<open>undefined\<close>; \<open>==\<close> on two such values is equality.
  The object is mutable, so the model finds its index in the table.
\<close>

fun getSetting_index :: "setting list \<Rightarrow> string option \<Rightarrow> nat option" where
  "getSetting_index [] name = None"
| "getSetting_index (s # ss) name =
     (if s_name s = name then Some 0 else map_option Suc (getSetting_index ss name))"

definition getSetting :: "world \<Rightarrow> string option \<Rightarrow> setting option" where
  "getSetting w name =
     (case getSetting_index (settings w) name of
        None \<Rightarrow> None
      | Some i \<Rightarrow> Some (settings w ! i))"

text \<open>
  The loop of \<open>getValue\<close>. \<open>setting.val[scope]\<close> is evaluated only for a scope that is not
  ignored (\<open>&&\<close> stops at a false left operand); it raises a TypeError when \<open>setting\<close> is
  \<open>null\<close> or has no \<open>val\<close>.
\<close>

fun getValue_loop :: "string list \<Rightarrow> setting option \<Rightarrow> string list \<Rightarrow> error + jsval" where
  "getValue_loop ign setting [] = Inr JNull"
| "getValue_loop ign setting (scope # rest) =
     (if scope \<notin> set ign then
        (case setting of
           None \<Rightarrow> Inl TypeError
         | Some s \<Rightarrow>
             (case s_val s of
                None \<Rightarrow> Inl TypeError
              | Some m \<Rightarrow>
                  if m scope \<noteq> JUndefined then Inr (m scope)
                  else getValue_loop ign setting rest))
      else getValue_loop ign setting rest)"

definition getValue :: "world \<Rightarrow> string option \<Rightarrow> error + jsval" where
  "getValue w name = getValue_loop (ignoredScopes w) (getSetting w name) scopes"

subsection \<open>setIgnoreScope\<close>

text \<open>\<open>push\<close> appends; \<open>splice(currentIndex, 1)\<close> removes the first occurrence.\<close>

definition setIgnoreScope :: "world \<Rightarrow> string \<Rightarrow> jsval \<Rightarrow> error option \<times> world" where
  "setIgnoreScope w scope ignore =
     (if scope \<notin> set scopes then
        (Some (Thrown (''Scope '' @ scope @ '' does not exist.'')), w)
      else if truthy ignore \<and> scope \<notin> set (ignoredScopes w) then
        (None, w\<lparr>ignoredScopes := ignoredScopes w @ [scope]\<rparr>)
      else if \<not> truthy ignore \<and> scope \<in> set (ignoredScopes w) then
        (None, w\<lparr>ignoredScopes := remove1 scope (ignoredScopes w)\<rparr>)
      else (None, w))"

subsection \<open>Loose equality with a string, and conversion of a string to a number\<close>

text \<open>
  \<open>StringToNumber\<close>, as far as the module needs it: white space is trimmed, the empty
  string is 0, a string of decimal digits is its value, and every other string is taken
  to be \<open>NaN\<close> (\<open>None\<close>). Signed, fractional, exponent, radix-prefixed literals and
  \<open>Infinity\<close> are numbers too and are not covered; each of them starts with a sign, a
  digit, a dot or the letter I. The strings converted here are scope names and logged messages.
\<close>

definition is_space :: "char \<Rightarrow> bool" where
  "is_space c = (c \<in> set [CHR 0x09, CHR 0x0A, CHR 0x0B, CHR 0x0C, CHR 0x0D, CHR 0x20])"

definition trim :: "string \<Rightarrow> string" where
  "trim s = rev (dropWhile is_space (rev (dropWhile is_space s)))"

definition digit_value :: "char \<Rightarrow> nat option" where
  "digit_value = map_of (zip ''0123456789'' [0, 1, 2, 3, 4, 5, 6, 7, 8, 9])"

fun digits_value :: "nat \<Rightarrow> string \<Rightarrow> nat option" where
  "digits_value acc [] = Some acc"
| "digits_value acc (c # cs) =
     (case digit_value c of
        None \<Rightarrow> None
      | Some d \<Rightarrow> digits_value (10 * acc + d) cs)"

definition str_to_number :: "string \<Rightarrow> int option" where
  "str_to_number s =
     (let t = trim s in
      if t = [] then Some 0 else map_option int (digits_value 0 t))"

text \<open>\<open>v == s\<close> for a string \<open>s\<close>: a number or boolean is compared with the string's number.\<close>

fun loose_eq_str :: "jsval \<Rightarrow> string \<Rightarrow> bool" where
  "loose_eq_str JUndefined s = False"
| "loose_eq_str JNull s = False"
| "loose_eq_str (JBool b) s = (str_to_number s = Some (if b then 1 else 0))"
| "loose_eq_str (JNum n) s = (str_to_number s = Some n)"
| "loose_eq_str (JStr t) s = (t = s)"

text \<open>\<open>Array.prototype.join\<close> with the default separator, a comma.\<close>

fun join :: "string list \<Rightarrow> string" where
  "join [] = []"
| "join [x] = x"
| "join (x # y # ys) = x @ '','' @ join (y # ys)"

text \<open>
  \<open>errors != 0\<close> for an array of strings: the array is converted to the string
  \<open>errors.join(",")\<close>, the string to a number, and the number compared with 0
  (\<open>NaN != 0\<close> is true).
\<close>

definition array_ne_zero :: "string list \<Rightarrow> bool" where
  "array_ne_zero errors = (str_to_number (join errors) \<noteq> Some 0)"

text \<open>A loop index printed in a message.\<close>

definition digit_char :: "nat \<Rightarrow> char" where
  "digit_char d = ''0123456789'' ! d"

fun nat_str :: "nat \<Rightarrow> string" where
  "nat_str n = (if n < 10 then [digit_char n] else nat_str (n div 10) @ [digit_char (n mod 10)])"

declare nat_str.simps [simp del]

subsection \<open>exportSettings and saveToCookie\<close>

text \<open>
  The result \<open>out\<close> is modelled by its own properties, which is what is saved. The inner
  loop reads \<open>settings[i].val[scopes[j]]\<close>, a TypeError while \<open>val\<close> is missing.
  \<open>out[name] = []\<close> starts every setting with an empty object, also when an earlier
  setting had the same name. For the name \<open>__proto__\<close> that assignment replaces the prototype
  of \<open>out\<close> instead: the values of the setting are then written to the new prototype, and
  \<open>out\<close> gets no property of its own. Every other name, also one that \<open>out\<close> inherits
  (\<open>toString\<close>, \<open>constructor\<close>), becomes a property of \<open>out\<close>.
\<close>

definition store_row :: "export \<Rightarrow> string \<Rightarrow> (string \<rightharpoonup> jsval) \<Rightarrow> export" where
  "store_row out key vals = (if key = ''__proto__'' then out else out(key \<mapsto> vals))"

fun exportSettings_scopes ::
  "(string \<Rightarrow> jsval) option \<Rightarrow> jsval \<Rightarrow> string list \<Rightarrow> (string \<rightharpoonup> jsval) \<Rightarrow> error + (string \<rightharpoonup> jsval)" where
  "exportSettings_scopes vm scope [] acc = Inr acc"
| "exportSettings_scopes vm scope (sc # rest) acc =
     (case vm of
        None \<Rightarrow> Inl TypeError
      | Some m \<Rightarrow>
          exportSettings_scopes vm scope rest
            (if truthy (m sc) \<and> (loose_eq_str scope sc \<or> \<not> truthy scope)
             then acc(sc \<mapsto> m sc) else acc))"

fun exportSettings_loop :: "setting list \<Rightarrow> jsval \<Rightarrow> export \<Rightarrow> error + export" where
  "exportSettings_loop [] scope out = Inr out"
| "exportSettings_loop (s # ss) scope out =
     (case exportSettings_scopes (s_val s) scope scopes Map.empty of
        Inl e \<Rightarrow> Inl e
      | Inr vals \<Rightarrow> exportSettings_loop ss scope (store_row out (field_str (s_name s)) vals))"

definition exportSettings :: "world \<Rightarrow> jsval \<Rightarrow> error + export" where
  "exportSettings w scope = exportSettings_loop (settings w) scope Map.empty"

definition saveToCookie :: "world \<Rightarrow> error option \<times> world" where
  "saveToCookie w =
     (case exportSettings w (JStr ''local'') of
        Inl e \<Rightarrow> (Some e, w)
      | Inr exported \<Rightarrow> (None, w\<lparr>trace := trace w @ [SaveCookie ''epl_prefs'' exported]\<rparr>))"

subsection \<open>setValue\<close>

text \<open>
  \<open>setControlSettingValue\<close>: jQuery finds at most one element for \<open>#id\<close>. With none,
  \<open>control.prop("tagName")\<close> is \<open>undefined\<close> and \<open>.toLowerCase()\<close> raises a TypeError, before
  the test of \<open>control.length\<close> is reached.
\<close>

definition setControlSettingValue ::
  "world \<Rightarrow> control \<Rightarrow> string option \<Rightarrow> jsval \<Rightarrow> error option \<times> world" where
  "setControlSettingValue w c name v =
     (let sel = ''#'' @ field_str (ctl_id c) in
      case document w sel of
        None \<Rightarrow> (Some TypeError, w)
      | Some el \<Rightarrow>
          if el_tag el = ''input'' then
            (if el_type el \<noteq> Some ''checkbox'' then
               (Some (Thrown (''settings error: only checkboxes are supported (setting: ''
                               @ field_str name @ '')'')), w)
             else (None, w\<lparr>trace := trace w @ [SetCheckbox sel v]\<rparr>))
          else if el_tag el = ''select'' then
            (None, w\<lparr>trace := trace w @ [SetSelectVal sel v]\<rparr>)
          else
            (Some (Thrown (''settings error: unsuppored control #'' @ field_str (ctl_id c)
                            @ '' ('' @ el_tag el @ '')'')), w))"

fun setValue_controls ::
  "world \<Rightarrow> control list \<Rightarrow> string option \<Rightarrow> string \<Rightarrow> jsval \<Rightarrow> error option \<times> world" where
  "setValue_controls w [] name scope v = (None, w)"
| "setValue_controls w (c # cs) name scope v =
     (if ctl_scope c = Some scope \<and> ctl_type c = Some ''control'' then
        (case setControlSettingValue w c name v of
           (Some e, w') \<Rightarrow> (Some e, w')
         | (None, w') \<Rightarrow> setValue_controls w' cs name scope v)
      else setValue_controls w cs name scope v)"

text \<open>
  \<open>if(s.callback) s.callback(s, exports.getValue(name))\<close>: the argument is evaluated
  before the call, and calling a value that is not a function raises a TypeError.
\<close>

definition call_callback :: "world \<Rightarrow> setting \<Rightarrow> string option \<Rightarrow> error option \<times> world" where
  "call_callback w s name =
     (case s_callback s of
        Absent \<Rightarrow> (None, w)
      | NonFunction \<Rightarrow>
          (case getValue w name of Inl e \<Rightarrow> (Some e, w) | Inr v \<Rightarrow> (Some TypeError, w))
      | Function f \<Rightarrow>
          (case getValue w name of
             Inl e \<Rightarrow> (Some e, w)
           | Inr v \<Rightarrow> (None, w\<lparr>trace := trace w @ [CallbackCall (s_name s) v]\<rparr>)))"

definition setValue :: "world \<Rightarrow> string option \<Rightarrow> string \<Rightarrow> jsval \<Rightarrow> error option \<times> world" where
  "setValue w name scope v =
     (if scope \<notin> set scopes then (Some (Thrown ''Unknown scope''), w)
      else
        case getSetting_index (settings w) name of
          None \<Rightarrow> (Some TypeError, w)
        | Some i \<Rightarrow>
            (case s_val (settings w ! i) of
               None \<Rightarrow> (Some TypeError, w)
             | Some m \<Rightarrow>
                 let s = (settings w ! i)\<lparr>s_val := Some (m(scope := v))\<rparr>;
                     w1 = w\<lparr>settings := (settings w)[i := s]\<rparr>
                 in
                   (case s_controls s of
                      None \<Rightarrow> (Some TypeError, w1)
                    | Some cs \<Rightarrow>
                        (case setValue_controls w1 cs (s_name s) scope v of
                           (Some e, w2) \<Rightarrow> (Some e, w2)
                         | (None, w2) \<Rightarrow>
                             (case call_callback w2 s name of
                                (Some e, w3) \<Rightarrow> (Some e, w3)
                              | (None, w3) \<Rightarrow>
                                  if loaded w3 then saveToCookie w3 else (None, w3))))))"

subsection \<open>checkSettingsArray\<close>

text \<open>\<open>logSettingsError\<close> pushes the prefixed message on \<open>errors\<close> and prints it.\<close>

definition logSettingsError :: "string list \<times> world \<Rightarrow> string \<Rightarrow> string list \<times> world" where
  "logSettingsError st msg =
     (let m = ''settings error: '' @ msg in
      (fst st @ [m], (snd st)\<lparr>trace := trace (snd st) @ [ConsoleLog m]\<rparr>))"

text \<open>An \<open>if\<close> whose only statement is a call of \<open>logSettingsError\<close>.\<close>

definition log_if :: "bool \<Rightarrow> string \<Rightarrow> string list \<times> world \<Rightarrow> string list \<times> world" where
  "log_if b msg st = (if b then logSettingsError st msg else st)"

text \<open>\<open>xs.indexOf(f) == -1\<close> for a property \<open>f\<close> that is a string or missing.\<close>

fun not_indexed :: "string list \<Rightarrow> string option \<Rightarrow> bool" where
  "not_indexed xs None = True"
| "not_indexed xs (Some t) = (t \<notin> set xs)"

text \<open>\<open>!f || f.length == 0\<close>.\<close>

definition not_given :: "string option \<Rightarrow> bool" where
  "not_given f = (falsy_field f \<or> (case f of None \<Rightarrow> False | Some t \<Rightarrow> length t = 0))"

definition validTypes :: "string list" where
  "validTypes = [''control'', ''get'', ''custom'']"

fun check_ignoredScopes :: "string list \<Rightarrow> string list \<times> world \<Rightarrow> string list \<times> world" where
  "check_ignoredScopes [] st = st"
| "check_ignoredScopes (x # xs) st =
     check_ignoredScopes xs
       (log_if (x \<notin> set scopes) (''ignored scope '' @ x @ '' does not exist.'') st)"

text \<open>
  The body of the loop over the controls of one setting; \<open>sname\<close> is \<open>setting.name\<close> as
  printed. The message for an invalid scope prints \<open>type\<close>, as the source does.
\<close>

definition check_control ::
  "string \<Rightarrow> nat \<Rightarrow> control \<Rightarrow> string list \<times> world \<Rightarrow> string list \<times> world" where
  "check_control sname j c st =
     (let type = ctl_type c;
          st1 = log_if (falsy_field type)
                  (''no type for control '' @ nat_str j @ '' in setting '' @ sname) st;
          st2 = log_if (not_indexed validTypes type)
                  (''invalid type '' @ field_str type @ '' for setting '' @ nat_str j
                    @ '' in setting '' @ sname) st1;
          scope = ctl_scope c;
          st3 = log_if (falsy_field scope)
                  (''no scope for control '' @ nat_str j @ '' in setting '' @ sname) st2;
          st4 = log_if (not_indexed scopes scope)
                  (''invalid scope '' @ field_str type @ '' for control '' @ nat_str j
                    @ '' in setting '' @ sname) st3
      in
        if type = Some ''control'' then
          log_if (not_given (ctl_id c))
            (''ID of control for control '' @ nat_str j @ '' in setting '' @ sname
              @ '' not given'') st4
        else if type = Some ''get'' then
          log_if (not_given (ctl_name c))
            (''Name of get-parameter for control '' @ nat_str j @ '' in setting '' @ sname
              @ '' not given'') st4
        else if type = Some ''custom'' then
          (case ctl_callback c of
             Absent \<Rightarrow>
               logSettingsError st4
                 (''Callback for control '' @ nat_str j @ '' in setting '' @ sname
                   @ '' not given'')
           | NonFunction \<Rightarrow>
               logSettingsError st4
                 (''Callback for control '' @ nat_str j @ '' in setting '' @ sname
                   @ '' is not a function'')
           | Function f \<Rightarrow> st4)
        else st4)"

fun check_controls ::
  "string \<Rightarrow> nat \<Rightarrow> control list \<Rightarrow> string list \<times> world \<Rightarrow> string list \<times> world" where
  "check_controls sname j [] st = st"
| "check_controls sname j (c # cs) st =
     check_controls sname (Suc j) cs (check_control sname j c st)"

text \<open>The body of the loop over the settings; \<open>continue\<close> skips the controls when there are none.\<close>

definition check_setting :: "nat \<Rightarrow> setting \<Rightarrow> string list \<times> world \<Rightarrow> string list \<times> world" where
  "check_setting i s st =
     (let nameOkay = \<not> not_given (s_name s);
          st1 = log_if (not_given (s_name s))
                  (''name of setting '' @ nat_str i @ '' not given'') st
      in
        case s_controls s of
          None \<Rightarrow>
            logSettingsError st1
              (''controls of setting ''
                @ (if nameOkay then field_str (s_name s) else nat_str i) @ '' not given'')
        | Some cs \<Rightarrow> check_controls (field_str (s_name s)) 0 cs st1)"

fun check_settings :: "nat \<Rightarrow> setting list \<Rightarrow> string list \<times> world \<Rightarrow> string list \<times> world" where
  "check_settings i [] st = st"
| "check_settings i (s # ss) st = check_settings (Suc i) ss (check_setting i s st)"

definition checkSettingsArray :: "world \<Rightarrow> error option \<times> world" where
  "checkSettingsArray w =
     (let st = check_settings 0 (settings w) (check_ignoredScopes (ignoredScopes w) ([], w)) in
      if array_ne_zero (fst st) then
        (Some (Thrown ''Errors occurred when checking the setting-definitions. Check the log.''),
         snd st)
      else (None, snd st))"

subsection \<open>loadSettings\<close>

text \<open>The two assignments that turn the strings \<open>true\<close> and \<open>false\<close> of the query into booleans.\<close>

definition coerce_param :: "string option \<Rightarrow> jsval" where
  "coerce_param p =
     (case p of
        None \<Rightarrow> JUndefined
      | Some t \<Rightarrow>
          if t = ''true'' then JBool True
          else if t = ''false'' then JBool False
          else JStr t)"

text \<open>
  The \<open>switch\<close> over the type of one control, on the object \<open>setting.val\<close>. A missing
  \<open>scope\<close> or \<open>name\<close> is used as the property key \<open>undefined\<close>.
\<close>

definition load_control ::
  "urlvars \<Rightarrow> control \<Rightarrow> (string \<Rightarrow> jsval) \<Rightarrow> error + (string \<Rightarrow> jsval)" where
  "load_control uv c m =
     (let scope = field_str (ctl_scope c) in
      if ctl_type c = Some ''get'' then
        (let paramValue = coerce_param (uv (field_str (ctl_name c))) in
         if truthy paramValue then Inr (m(scope := paramValue)) else Inr m)
      else if ctl_type c = Some ''custom'' then
        (case ctl_callback c of
           Function f \<Rightarrow> Inr (m(scope := f uv))
         | _ \<Rightarrow> Inl TypeError)
      else Inr m)"

fun load_controls ::
  "urlvars \<Rightarrow> control list \<Rightarrow> (string \<Rightarrow> jsval) \<Rightarrow> error option \<times> (string \<Rightarrow> jsval)" where
  "load_controls uv [] m = (None, m)"
| "load_controls uv (c # cs) m =
     (case load_control uv c m of
        Inl e \<Rightarrow> (Some e, m)
      | Inr m' \<Rightarrow> load_controls uv cs m')"

text \<open>
  The loop that commits every defined scope of setting \<open>i\<close> through \<open>setValue\<close>. It reads
  \<open>setting.val\<close> of the object at index \<open>i\<close>; \<open>setValue\<close> writes to the first object with
  that name.
\<close>

fun load_commit :: "world \<Rightarrow> nat \<Rightarrow> string list \<Rightarrow> error option \<times> world" where
  "load_commit w i [] = (None, w)"
| "load_commit w i (scope # rest) =
     (case s_val (settings w ! i) of
        None \<Rightarrow> (Some TypeError, w)
      | Some m \<Rightarrow>
          if m scope \<noteq> JUndefined then
            (case setValue w (s_name (settings w ! i)) scope (m scope) of
               (Some e, w') \<Rightarrow> (Some e, w')
             | (None, w') \<Rightarrow> load_commit w' i rest)
          else load_commit w i rest)"

text \<open>The body of the first loop of \<open>loadSettings\<close>, for the setting at index \<open>i\<close>.\<close>

definition load_setting :: "world \<Rightarrow> nat \<Rightarrow> error option \<times> world" where
  "load_setting w i =
     (let s = settings w ! i;
          m0 = (\<lambda>k. JUndefined)(''local'' := s_defaultValue s)
      in
        case s_controls s of
          None \<Rightarrow> (Some TypeError, w\<lparr>settings := (settings w)[i := s\<lparr>s_val := Some m0\<rparr>]\<rparr>)
        | Some cs \<Rightarrow>
            (case load_controls (urlVars w) cs m0 of
               (Some e, m) \<Rightarrow> (Some e, w\<lparr>settings := (settings w)[i := s\<lparr>s_val := Some m\<rparr>]\<rparr>)
             | (None, m) \<Rightarrow>
                 load_commit (w\<lparr>settings := (settings w)[i := s\<lparr>s_val := Some m\<rparr>]\<rparr>) i scopes))"

fun load_settings :: "world \<Rightarrow> nat list \<Rightarrow> error option \<times> world" where
  "load_settings w [] = (None, w)"
| "load_settings w (i # is) =
     (case load_setting w i of
        (Some e, w') \<Rightarrow> (Some e, w')
      | (None, w') \<Rightarrow> load_settings w' is)"

text \<open>The second loop: every callback is called once more.\<close>

fun load_callbacks :: "world \<Rightarrow> setting list \<Rightarrow> error option \<times> world" where
  "load_callbacks w [] = (None, w)"
| "load_callbacks w (s # ss) =
     (case call_callback w s (s_name s) of
        (Some e, w') \<Rightarrow> (Some e, w')
      | (None, w') \<Rightarrow> load_callbacks w' ss)"

definition loadSettings :: "world \<Rightarrow> error option \<times> world" where
  "loadSettings w =
     (case checkSettingsArray w of
        (Some e, w1) \<Rightarrow> (Some e, w1)
      | (None, w1) \<Rightarrow>
          (case load_settings w1 [0..<length (settings w1)] of
             (Some e, w2) \<Rightarrow> (Some e, w2)
           | (None, w2) \<Rightarrow>
               (case load_callbacks w2 (settings w2) of
                  (Some e, w3) \<Rightarrow> (Some e, w3)
                | (None, w3) \<Rightarrow> saveToCookie (w3\<lparr>loaded := True\<rparr>))))"

subsection \<open>The table of the source\<close>

text \<open>The three shapes of control literal the table uses, and a setting literal.\<close>

definition get_binding :: "string \<Rightarrow> string \<Rightarrow> control" where
  "get_binding scope pname =
     \<lparr>ctl_scope = Some scope, ctl_type = Some ''get'', ctl_id = None,
      ctl_name = Some pname, ctl_callback = Absent\<rparr>"

definition control_binding :: "string \<Rightarrow> string \<Rightarrow> control" where
  "control_binding scope ident =
     \<lparr>ctl_scope = Some scope, ctl_type = Some ''control'', ctl_id = Some ident,
      ctl_name = None, ctl_callback = Absent\<rparr>"

definition custom_binding :: "string \<Rightarrow> (urlvars \<Rightarrow> jsval) \<Rightarrow> control" where
  "custom_binding scope f =
     \<lparr>ctl_scope = Some scope, ctl_type = Some ''custom'', ctl_id = None,
      ctl_name = None, ctl_callback = Function f\<rparr>"

definition entry :: "string \<Rightarrow> jsval \<Rightarrow> control list \<Rightarrow> setting" where
  "entry n d cs =
     \<lparr>s_name = Some n, s_defaultValue = d, s_callback = Absent,
      s_controls = Some cs, s_val = None\<rparr>"

text \<open>
  The callback of \<open>showAuthorColors\<close>: \<open>noColors=true\<close> means \<open>showAuthorColors=false\<close>.
  Without the parameter the function returns nothing, that is \<open>undefined\<close>.
\<close>

definition noColors_callback :: "urlvars \<Rightarrow> jsval" where
  "noColors_callback uv =
     (case uv ''noColors'' of
        None \<Rightarrow> JUndefined
      | Some t \<Rightarrow> JBool (t = ''false''))"

definition initial_settings :: "setting list" where
  "initial_settings =
     [entry ''name'' JNull [get_binding ''get'' ''userName''],
      entry ''userId'' JNull [],
      entry ''userColor'' JNull [get_binding ''get'' ''userColor''],
      entry ''language'' (JStr ''en'') [get_binding ''get'' ''lang''],
      entry ''rtl'' (JBool False) [get_binding ''get'' ''rtl''],
      entry ''ignoreGlobal'' (JBool False)
        [get_binding ''get'' ''ignoreGlobal'',
         control_binding ''local'' ''options-ignore-global''],
      entry ''showAuthorColors'' (JBool True)
        [control_binding ''local'' ''options-colorscheck'',
         control_binding ''global'' ''options-colorscheck-global'',
         custom_binding ''get'' noColors_callback],
      entry ''showLineNumbers'' (JBool True)
        [get_binding ''get'' ''showLineNumbers'',
         control_binding ''local'' ''options-linenoscheck'',
         control_binding ''global'' ''options-linenoscheck-global''],
      entry ''useMonospaceFont'' (JBool False)
        [get_binding ''get'' ''useMonospaceFont'',
         control_binding ''local'' ''viewfontmenu'',
         control_binding ''global'' ''viewfontmenu-global''],
      entry ''stickychat'' (JBool False)
        [get_binding ''get'' ''alwaysShowChat'',
         control_binding ''local'' ''options-stickychat''],
      entry ''showControls'' (JBool True) [get_binding ''get'' ''showControls''],
      entry ''showChat'' (JBool True) [get_binding ''get'' ''showChat'']]"

text \<open>
  The module as it stands when it has been evaluated, for a given query mapping and page:
  nothing ignored, nothing loaded.
\<close>

definition initial_world :: "urlvars \<Rightarrow> (string \<Rightarrow> element option) \<Rightarrow> world" where
  "initial_world uv doc =
     \<lparr>settings = initial_settings, ignoredScopes = [], loaded = False,
      urlVars = uv, document = doc, trace = []\<rparr>"

subsection \<open>Small states for examples\<close>

text \<open>
  A table with the single setting \<open>flag\<close> (default \<open>false\<close>, one query binding for scope
  \<open>get\<close>), after loading: its \<open>val\<close> is the object \<open>m\<close>, and \<open>ign\<close> is the list of ignored scopes.
\<close>

definition flag_setting :: "(string \<Rightarrow> jsval) \<Rightarrow> setting" where
  "flag_setting m = (entry ''flag'' (JBool False) [get_binding ''get'' ''flag''])\<lparr>s_val := Some m\<rparr>"

definition flag_world :: "(string \<Rightarrow> jsval) \<Rightarrow> string list \<Rightarrow> world" where
  "flag_world m ign =
     \<lparr>settings = [flag_setting m], ignoredScopes = ign, loaded = True,
      urlVars = Map.empty, document = Map.empty, trace = []\<rparr>"

definition no_values :: "string \<Rightarrow> jsval" where
  "no_values = (\<lambda>k. JUndefined)"

text \<open>The module of the source after the three scopes have been ignored one by one.\<close>

definition all_ignored :: world where
  "all_ignored =
     snd (setIgnoreScope (snd (setIgnoreScope (snd (setIgnoreScope
       (initial_world Map.empty Map.empty) ''local'' (JBool True))) ''global'' (JBool True)))
       ''get'' (JBool True))"

subsection \<open>States that differ in the trace only\<close>

definition same_module :: "world \<Rightarrow> world \<Rightarrow> bool" where
  "same_module w w' =
     (settings w' = settings w \<and> ignoredScopes w' = ignoredScopes w \<and> loaded w' = loaded w
      \<and> urlVars w' = urlVars w \<and> document w' = document w)"

subsection \<open>The row that exportSettings builds for one setting\<close>

text \<open>What the inner loop of \<open>exportSettings\<close> stores, as a function of the values and the argument.\<close>

definition export_row :: "(string \<Rightarrow> jsval) \<Rightarrow> jsval \<Rightarrow> string list \<Rightarrow> (string \<rightharpoonup> jsval)" where
  "export_row m scope scs =
     (\<lambda>sc. if sc \<in> set scs \<and> truthy (m sc) \<and> (loose_eq_str scope sc \<or> \<not> truthy scope)
           then Some (m sc) else None)"


text \<open>Values of a setting with a falsy local value and truthy values for the two other scopes.\<close>

definition mixed_values :: "string \<Rightarrow> jsval" where
  "mixed_values = no_values(''local'' := JBool False, ''global'' := JStr ''x'', ''get'' := JBool True)"

subsection \<open>The errors checkSettingsArray collects\<close>

text \<open>
  The messages of \<open>checkSettingsArray\<close> as lists: what each part of the check logs, in
  order. They are shown below to be what the function pushes on \<open>errors\<close> and prints.
\<close>

definition prefixed :: "string \<Rightarrow> string" where
  "prefixed msg = ''settings error: '' @ msg"

definition logged :: "string list \<Rightarrow> string list \<times> world \<Rightarrow> string list \<times> world" where
  "logged msgs st = (fst st @ msgs, (snd st)\<lparr>trace := trace (snd st) @ map ConsoleLog msgs\<rparr>)"

definition when_msg :: "bool \<Rightarrow> string \<Rightarrow> string list" where
  "when_msg b msg = (if b then [prefixed msg] else [])"

definition ignored_errors :: "string list \<Rightarrow> string list" where
  "ignored_errors xs =
     concat (map (\<lambda>x. when_msg (x \<notin> set scopes) (''ignored scope '' @ x @ '' does not exist.'')) xs)"

definition control_errors :: "string \<Rightarrow> nat \<Rightarrow> control \<Rightarrow> string list" where
  "control_errors sname j c =
     when_msg (falsy_field (ctl_type c))
       (''no type for control '' @ nat_str j @ '' in setting '' @ sname)
     @ when_msg (not_indexed validTypes (ctl_type c))
       (''invalid type '' @ field_str (ctl_type c) @ '' for setting '' @ nat_str j
         @ '' in setting '' @ sname)
     @ when_msg (falsy_field (ctl_scope c))
       (''no scope for control '' @ nat_str j @ '' in setting '' @ sname)
     @ when_msg (not_indexed scopes (ctl_scope c))
       (''invalid scope '' @ field_str (ctl_type c) @ '' for control '' @ nat_str j
         @ '' in setting '' @ sname)
     @ when_msg (ctl_type c = Some ''control'' \<and> not_given (ctl_id c))
       (''ID of control for control '' @ nat_str j @ '' in setting '' @ sname @ '' not given'')
     @ when_msg (ctl_type c = Some ''get'' \<and> not_given (ctl_name c))
       (''Name of get-parameter for control '' @ nat_str j @ '' in setting '' @ sname
         @ '' not given'')
     @ when_msg (ctl_type c = Some ''custom'' \<and> ctl_callback c = Absent)
       (''Callback for control '' @ nat_str j @ '' in setting '' @ sname @ '' not given'')
     @ when_msg (ctl_type c = Some ''custom'' \<and> ctl_callback c = NonFunction)
       (''Callback for control '' @ nat_str j @ '' in setting '' @ sname
         @ '' is not a function'')"

definition controls_errors :: "string \<Rightarrow> nat \<Rightarrow> control list \<Rightarrow> string list" where
  "controls_errors sname j cs =
     concat (map (\<lambda>p. control_errors sname (fst p) (snd p)) (enumerate j cs))"

definition setting_errors :: "nat \<Rightarrow> setting \<Rightarrow> string list" where
  "setting_errors i s =
     when_msg (not_given (s_name s)) (''name of setting '' @ nat_str i @ '' not given'')
     @ (case s_controls s of
          None \<Rightarrow>
            [prefixed (''controls of setting ''
               @ (if \<not> not_given (s_name s) then field_str (s_name s) else nat_str i)
               @ '' not given'')]
        | Some cs \<Rightarrow> controls_errors (field_str (s_name s)) 0 cs)"

definition settings_errors :: "nat \<Rightarrow> setting list \<Rightarrow> string list" where
  "settings_errors i ss = concat (map (\<lambda>p. setting_errors (fst p) (snd p)) (enumerate i ss))"

text \<open>The array \<open>errors\<close> when the loops of \<open>checkSettingsArray\<close> are done.\<close>

definition collected_errors :: "world \<Rightarrow> string list" where
  "collected_errors w =
     fst (check_settings 0 (settings w) (check_ignoredScopes (ignoredScopes w) ([], w)))"


text \<open>
  The defects of a table counted one by one: an ignored scope that is not a scope, a
  setting whose name is missing or empty, a control whose type is not a valid type, a
  control of type \<open>get\<close> whose name is missing or empty.
\<close>

definition bad_control :: "control \<Rightarrow> bool" where
  "bad_control c =
     (not_indexed validTypes (ctl_type c) \<or> (ctl_type c = Some ''get'' \<and> not_given (ctl_name c)))"

definition setting_defects :: "setting \<Rightarrow> nat" where
  "setting_defects s =
     (if not_given (s_name s) then 1 else 0)
     + (case s_controls s of None \<Rightarrow> 0 | Some cs \<Rightarrow> length (filter bad_control cs))"

definition defects :: "world \<Rightarrow> nat" where
  "defects w =
     length (filter (\<lambda>x. x \<notin> set scopes) (ignoredScopes w))
     + sum_list (map setting_defects (settings w))"


text \<open>A table with one defect of each kind.\<close>

definition broken_world :: world where
  "broken_world =
     \<lparr>settings =
        [\<lparr>s_name = None, s_defaultValue = JNull, s_callback = Absent,
          s_controls =
            Some [\<lparr>ctl_scope = Some ''get'', ctl_type = Some ''get'', ctl_id = None,
                   ctl_name = None, ctl_callback = Absent\<rparr>,
                  \<lparr>ctl_scope = Some ''local'', ctl_type = Some ''slider'', ctl_id = Some ''zoom'',
                   ctl_name = None, ctl_callback = Absent\<rparr>],
          s_val = None\<rparr>],
      ignoredScopes = [''session''], loaded = False, urlVars = Map.empty,
      document = Map.empty, trace = []\<rparr>"

subsection \<open>Loading, for the statements about loadSettings\<close>

text \<open>
  A setting as the first loop of \<open>loadSettings\<close> leaves it: \<open>val\<close> holds the default under
  \<open>local\<close> and what the controls add.
\<close>

definition seeded :: "urlvars \<Rightarrow> setting \<Rightarrow> setting" where
  "seeded uv s =
     s\<lparr>s_val := Some (snd (load_controls uv (case s_controls s of None \<Rightarrow> [] | Some cs \<Rightarrow> cs)
                               (no_values(''local'' := s_defaultValue s))))\<rparr>"

text \<open>The page has, for the id of a control, a checkbox or a select, which \<open>setControlSettingValue\<close> accepts.\<close>

definition widget_ok :: "(string \<Rightarrow> element option) \<Rightarrow> control \<Rightarrow> bool" where
  "widget_ok doc c =
     (case doc (''#'' @ field_str (ctl_id c)) of
        None \<Rightarrow> False
      | Some el \<Rightarrow> (el_tag el = ''input'' \<and> el_type el = Some ''checkbox'') \<or> el_tag el = ''select'')"

text \<open>
  A setting that \<open>loadSettings\<close> can go through without an exception: it has controls, every
  computed binding has a function, every widget is on the page, and the callback can be called.
\<close>

definition loadable_setting :: "(string \<Rightarrow> element option) \<Rightarrow> setting \<Rightarrow> bool" where
  "loadable_setting doc s =
     (s_callback s \<noteq> NonFunction \<and>
      (case s_controls s of
         None \<Rightarrow> False
       | Some cs \<Rightarrow>
           list_all (\<lambda>c. (ctl_type c = Some ''custom'' \<longrightarrow>
                             ctl_callback c \<noteq> Absent \<and> ctl_callback c \<noteq> NonFunction)
                        \<and> (ctl_type c = Some ''control'' \<longrightarrow> widget_ok doc c)) cs))"

text \<open>A module that is not loaded yet, with names that differ and settings that can be loaded.\<close>

definition loadable :: "world \<Rightarrow> bool" where
  "loadable w =
     (\<not> loaded w \<and> distinct (map s_name (settings w))
      \<and> list_all (loadable_setting (document w)) (settings w))"

text \<open>A page on which every selector finds a checkbox.\<close>

definition checkbox_page :: "string \<Rightarrow> element option" where
  "checkbox_page sel = Some \<lparr>el_tag = ''input'', el_type = Some ''checkbox''\<rparr>"

text \<open>
  A setting as the table of the source writes them: the default is not \<open>undefined\<close>, and no
  query or computed binding stores to scope \<open>local\<close>.
\<close>

definition local_from_default :: "setting \<Rightarrow> bool" where
  "local_from_default s =
     (s_defaultValue s \<noteq> JUndefined \<and>
      (case s_controls s of
         None \<Rightarrow> True
       | Some cs \<Rightarrow>
           list_all (\<lambda>c. ctl_type c = Some ''get'' \<or> ctl_type c = Some ''custom'' \<longrightarrow>
                          ctl_scope c \<noteq> Some ''local'') cs))"

text \<open>Every setting has its values object, with a defined value for \<open>local\<close>.\<close>

definition local_defined :: "world \<Rightarrow> bool" where
  "local_defined u =
     list_all (\<lambda>s. case s_val s of None \<Rightarrow> False | Some m \<Rightarrow> m ''local'' \<noteq> JUndefined) (settings u)"

text \<open>The module of the source for three query strings, on the page of checkboxes.\<close>

definition query_false :: world where
  "query_false = initial_world (Map.empty(''showLineNumbers'' \<mapsto> ''false'')) checkbox_page"

definition query_color :: world where
  "query_color = initial_world (Map.empty(''userColor'' \<mapsto> ''red'')) checkbox_page"

definition query_lang :: world where
  "query_lang = initial_world (Map.empty(''lang'' \<mapsto> ''de'')) checkbox_page"

text \<open>
  The module of the source after \<open>loadSettings\<close> with an empty query, and then with
  \<open>global\<close> and \<open>get\<close> ignored.
\<close>

definition loaded_defaults :: world where
  "loaded_defaults = snd (loadSettings (initial_world Map.empty checkbox_page))"

definition only_local :: world where
  "only_local =
     snd (setIgnoreScope (snd (setIgnoreScope loaded_defaults ''global'' (JBool True)))
            ''get'' (JBool True))"

section \<open>Properties\<close>

subsection \<open>Resolution of a value\<close>

lemma getValue_loop_find:
  "getValue_loop ign (Some s) scs =
     (case s_val s of
        None \<Rightarrow> (if set scs \<subseteq> set ign then Inr JNull else Inl TypeError)
      | Some m \<Rightarrow>
          Inr (case find (\<lambda>sc. sc \<notin> set ign \<and> m sc \<noteq> JUndefined) scs of
                 None \<Rightarrow> JNull | Some sc \<Rightarrow> m sc))"
  by (induction scs) (auto split: option.splits)

lemma getValue_loop_null:
  "getValue_loop ign None scs = (if set scs \<subseteq> set ign then Inr JNull else Inl TypeError)"
  by (induction scs) auto

text \<open>
  C1, as the code has it. For a registered name \<open>getValue\<close> depends on whether the setting
  has its values object, which only \<open>loadSettings\<close> creates. With it, \<open>getValue\<close> returns the
  value of the first scope, in the order local, global, get, that is not ignored and whose
  value is not \<open>undefined\<close>, and \<open>null\<close> when there is no such scope. Without it, \<open>getValue\<close>
  raises a TypeError at the first scope that is not ignored, and returns \<open>null\<close> only when
  all three scopes are ignored.
\<close>

theorem getValue_first_defined_scope:
  assumes "getSetting w name = Some s"
  shows "getValue w name =
           (case s_val s of
              None \<Rightarrow>
                (if {''local'', ''global'', ''get''} \<subseteq> set (ignoredScopes w) then Inr JNull
                 else Inl TypeError)
            | Some m \<Rightarrow>
                Inr (case find (\<lambda>sc. sc \<notin> set (ignoredScopes w) \<and> m sc \<noteq> JUndefined)
                            [''local'', ''global'', ''get''] of
                       None \<Rightarrow> JNull
                     | Some sc \<Rightarrow> m sc))"
  using assms by (auto simp: getValue_def getValue_loop_find scopes_def split: option.splits)

theorem getValue_first_defined_scope_witness:
  "getSetting (flag_world (no_values(''global'' := JStr ''b'', ''get'' := JBool True)) [''global''])
     (Some ''flag'')
     = Some (flag_setting (no_values(''global'' := JStr ''b'', ''get'' := JBool True)))
   \<and> s_val (flag_setting (no_values(''global'' := JStr ''b'', ''get'' := JBool True)))
     = Some (no_values(''global'' := JStr ''b'', ''get'' := JBool True))
   \<and> getValue (flag_world (no_values(''global'' := JStr ''b'', ''get'' := JBool True)) [''global''])
     (Some ''flag'') = Inr (JBool True)"
  using getValue_first_defined_scope
    [of "flag_world (no_values(''global'' := JStr ''b'', ''get'' := JBool True)) [''global'']"
        "Some ''flag''"
        "flag_setting (no_values(''global'' := JStr ''b'', ''get'' := JBool True))"]
  by (simp add: flag_world_def flag_setting_def getSetting_def entry_def no_values_def)

text \<open>
  The claim C1 as stated fails in the state the module starts in: \<open>rtl\<close> is a registered
  name, no scope is ignored and no scope has a value, and \<open>getValue("rtl")\<close> raises a
  TypeError where the claim has it return \<open>null\<close>.
\<close>

theorem getValue_unloaded_counterexample:
  "getSetting (initial_world Map.empty Map.empty) (Some ''rtl'')
     = Some (entry ''rtl'' (JBool False) [get_binding ''get'' ''rtl''])
   \<and> ignoredScopes (initial_world Map.empty Map.empty) = []
   \<and> getValue (initial_world Map.empty Map.empty) (Some ''rtl'') = Inl TypeError"
  by (simp add: getValue_def getSetting_def initial_world_def initial_settings_def entry_def
      scopes_def)

subsection \<open>setValue with an unknown scope\<close>

text \<open>
  C3. \<open>setValue\<close> with a scope that is none of local, global, get throws
  \<open>Unknown scope\<close> and leaves the whole state, so every setting's values, as it was.
\<close>

theorem setValue_unknown_scope:
  assumes "scope \<notin> {''local'', ''global'', ''get''}"
  shows "setValue w name scope v = (Some (Thrown ''Unknown scope''), w)"
  using assms by (simp add: setValue_def scopes_def)

theorem setValue_unknown_scope_witness:
  "''session'' \<notin> {''local'', ''global'', ''get''}
   \<and> setValue (flag_world no_values []) (Some ''flag'') ''session'' (JBool True)
     = (Some (Thrown ''Unknown scope''), flag_world no_values [])"
  using setValue_unknown_scope [of "''session''" "flag_world no_values []" "Some ''flag''" "JBool True"]
  by simp

subsection \<open>setIgnoreScope\<close>

lemma count_list_distinct: "distinct xs \<Longrightarrow> x \<in> set xs \<Longrightarrow> count_list xs x = 1"
  by (induction xs) auto

lemma count_list_absent: "x \<notin> set xs \<Longrightarrow> count_list xs x = 0"
  by (induction xs) auto

text \<open>
  C6. The list of ignored scopes starts empty and is changed by \<open>setIgnoreScope\<close> only, which
  keeps it free of repetitions. On such a list, for a recognized scope: a first call with
  \<open>true\<close> succeeds, a second call with \<open>true\<close> changes nothing, and the scope then occurs
  exactly once; a call with \<open>false\<close> for a scope that is not in the list changes nothing.
  For a scope that is not recognized the call throws and changes nothing.
\<close>

theorem setIgnoreScope_idempotent:
  assumes "scope \<in> {''local'', ''global'', ''get''}" and "distinct (ignoredScopes w)"
  shows "fst (setIgnoreScope w scope (JBool True)) = None
         \<and> setIgnoreScope (snd (setIgnoreScope w scope (JBool True))) scope (JBool True)
             = (None, snd (setIgnoreScope w scope (JBool True)))
         \<and> count_list (ignoredScopes (snd (setIgnoreScope w scope (JBool True)))) scope = 1
         \<and> distinct (ignoredScopes (snd (setIgnoreScope w scope (JBool True))))
         \<and> distinct (ignoredScopes (snd (setIgnoreScope w scope (JBool False))))
         \<and> (scope \<notin> set (ignoredScopes w) \<longrightarrow> setIgnoreScope w scope (JBool False) = (None, w))
         \<and> (other \<notin> {''local'', ''global'', ''get''} \<longrightarrow>
              setIgnoreScope w other ignore
                = (Some (Thrown (''Scope '' @ other @ '' does not exist.'')), w))"
  using assms
  by (auto simp: setIgnoreScope_def scopes_def count_list_distinct count_list_absent)

theorem setIgnoreScope_idempotent_witness:
  "''global'' \<in> {''local'', ''global'', ''get''}
   \<and> distinct (ignoredScopes (flag_world no_values [''get'']))
   \<and> ignoredScopes (snd (setIgnoreScope (flag_world no_values [''get'']) ''global'' (JBool True)))
       = [''get'', ''global'']
   \<and> setIgnoreScope (snd (setIgnoreScope (flag_world no_values [''get'']) ''global'' (JBool True)))
        ''global'' (JBool True)
       = (None, snd (setIgnoreScope (flag_world no_values [''get'']) ''global'' (JBool True)))
   \<and> count_list (ignoredScopes (snd (setIgnoreScope (flag_world no_values [''get'']) ''global'' (JBool True)))) ''global'' = 1
   \<and> setIgnoreScope (flag_world no_values [''get'']) ''global'' (JBool False)
       = (None, flag_world no_values [''get''])
   \<and> setIgnoreScope (flag_world no_values [''get'']) ''session'' (JBool True)
       = (Some (Thrown ''Scope session does not exist.''), flag_world no_values [''get''])"
  using setIgnoreScope_idempotent [of "''global''" "flag_world no_values [''get'']" "''session''" "JBool True"]
  by (simp add: flag_world_def setIgnoreScope_def scopes_def)

subsection \<open>A name that is not registered\<close>

lemma getSetting_index_None:
  "getSetting_index ss name = None \<longleftrightarrow> (\<forall>s \<in> set ss. s_name s \<noteq> name)"
  by (induction ss) auto

lemma all_ignored_eq:
  "all_ignored =
     (initial_world Map.empty Map.empty)\<lparr>ignoredScopes := [''local'', ''global'', ''get'']\<rparr>"
  by (simp add: all_ignored_def setIgnoreScope_def scopes_def initial_world_def)

text \<open>
  C10, as the code has it. For a name under which no setting is registered, \<open>getSetting\<close>
  returns \<open>null\<close>; \<open>setValue\<close> with a recognized scope raises a TypeError and changes nothing;
  \<open>getValue\<close> raises a TypeError when at least one of the three scopes is not ignored, and
  returns \<open>null\<close> when all three are ignored, since \<open>setting.val\<close> is then never read.
\<close>

theorem unregistered_name:
  assumes "\<forall>s \<in> set (settings w). s_name s \<noteq> name"
  shows "getSetting w name = None
         \<and> getValue w name =
             (if {''local'', ''global'', ''get''} \<subseteq> set (ignoredScopes w) then Inr JNull
              else Inl TypeError)
         \<and> (scope \<in> {''local'', ''global'', ''get''} \<longrightarrow>
              setValue w name scope v = (Some TypeError, w))"
proof -
  have idx: "getSetting_index (settings w) name = None"
    using assms by (simp add: getSetting_index_None)
  then have "getSetting w name = None" by (simp add: getSetting_def)
  then show ?thesis using idx
    by (simp add: getValue_def getValue_loop_null scopes_def setValue_def)
qed

theorem unregistered_name_witness:
  "Some ''fontSize'' \<notin> s_name ` set (settings (flag_world no_values []))
   \<and> getSetting (flag_world no_values []) (Some ''fontSize'') = None
   \<and> getValue (flag_world no_values []) (Some ''fontSize'') = Inl TypeError
   \<and> setValue (flag_world no_values []) (Some ''fontSize'') ''local'' (JNum 12)
        = (Some TypeError, flag_world no_values [])"
  using unregistered_name [of "flag_world no_values []" "Some ''fontSize''" "''local''" "JNum 12"]
  by (simp add: flag_world_def flag_setting_def entry_def)

text \<open>
  The claim as stated fails once the three scopes are ignored: no setting is named
  \<open>fontSize\<close> in the table of the source, and \<open>getValue\<close> returns \<open>null\<close> for it.
\<close>

theorem unregistered_name_counterexample:
  "getSetting all_ignored (Some ''fontSize'') = None
   \<and> getValue all_ignored (Some ''fontSize'') = Inr JNull"
proof -
  have "getSetting_index initial_settings (Some ''fontSize'') = None"
    by (simp add: getSetting_index_None initial_settings_def entry_def)
  then show ?thesis
    by (simp add: all_ignored_eq getSetting_def getValue_def initial_world_def scopes_def)
qed

subsection \<open>What setValue changes\<close>

lemma same_module_refl [simp]: "same_module w w"
  by (simp add: same_module_def)

lemma same_module_trans: "same_module a b \<Longrightarrow> same_module b c \<Longrightarrow> same_module a c"
  by (simp add: same_module_def)

lemma same_module_trace [simp]: "same_module w (w\<lparr>trace := t\<rparr>)"
  by (simp add: same_module_def)

lemma setControlSettingValue_frame: "same_module w (snd (setControlSettingValue w c n v))"
  by (simp add: setControlSettingValue_def Let_def split: option.splits)

lemma setValue_controls_frame: "same_module w (snd (setValue_controls w cs n scope v))"
proof (induction cs arbitrary: w)
  case Nil
  then show ?case by simp
next
  case (Cons c cs)
  show ?case
  proof (cases "ctl_scope c = Some scope \<and> ctl_type c = Some ''control''")
    case False
    then show ?thesis using Cons.IH [of w] by auto
  next
    case True
    obtain e w' where r: "setControlSettingValue w c n v = (e, w')" by (cases "setControlSettingValue w c n v")
    have f: "same_module w w'" using setControlSettingValue_frame [of w c n v] r by simp
    show ?thesis
    proof (cases e)
      case None
      then show ?thesis using True r f Cons.IH [of w'] by (auto intro: same_module_trans)
    next
      case (Some a)
      then show ?thesis using True r f by simp
    qed
  qed
qed

lemma getValue_same_module: "same_module w w' \<Longrightarrow> getValue w' name = getValue w name"
  by (simp add: same_module_def getValue_def getSetting_def split: option.splits)

lemma exportSettings_same_module: "same_module w w' \<Longrightarrow> exportSettings w' sc = exportSettings w sc"
  by (simp add: same_module_def exportSettings_def)

lemma call_callback_frame: "same_module w (snd (call_callback w s name))"
  by (simp add: call_callback_def split: jsfun.splits sum.splits)

lemma saveToCookie_frame: "same_module w (snd (saveToCookie w))"
  by (simp add: saveToCookie_def split: sum.splits)

lemma getSetting_index_Some:
  "getSetting_index ss name = Some i \<Longrightarrow> i < length ss \<and> s_name (ss ! i) = name"
  by (induction ss arbitrary: i) (auto split: if_splits)

lemma getSetting_index_update:
  "s_name s' = s_name (ss ! j) \<Longrightarrow> j < length ss \<Longrightarrow>
   getSetting_index (ss[j := s']) name = getSetting_index ss name"
proof (induction ss arbitrary: j)
  case Nil
  then show ?case by simp
next
  case (Cons a ss)
  then show ?case by (cases j) auto
qed

lemma setValue_state:
  assumes "scope \<in> set scopes" and "getSetting_index (settings w) name = Some i"
    and "s_val (settings w ! i) = Some m"
  shows "same_module
           (w\<lparr>settings := (settings w)[i := (settings w ! i)\<lparr>s_val := Some (m(scope := v))\<rparr>]\<rparr>)
           (snd (setValue w name scope v))"
proof -
  define s where "s = (settings w ! i)\<lparr>s_val := Some (m(scope := v))\<rparr>"
  define w1 where "w1 = w\<lparr>settings := (settings w)[i := s]\<rparr>"
  show ?thesis
  proof (cases "s_controls s")
    case None
    then show ?thesis using assms by (simp add: setValue_def s_def w1_def)
  next
    case (Some cs)
    obtain e2 w2 where r2: "setValue_controls w1 cs (s_name s) scope v = (e2, w2)"
      by (cases "setValue_controls w1 cs (s_name s) scope v")
    have f2: "same_module w1 w2" using setValue_controls_frame [of w1 cs "s_name s" scope v] r2 by simp
    obtain e3 w3 where r3: "call_callback w2 s name = (e3, w3)" by (cases "call_callback w2 s name")
    have f3: "same_module w2 w3" using call_callback_frame [of w2 s name] r3 by simp
    have f4: "same_module w3 (snd (saveToCookie w3))" by (rule saveToCookie_frame)
    have "snd (setValue w name scope v) = w2 \<or> snd (setValue w name scope v) = w3
          \<or> snd (setValue w name scope v) = snd (saveToCookie w3)"
      using assms Some r2 r3
      by (simp add: setValue_def s_def [symmetric] w1_def [symmetric] Let_def split: option.splits)
    then show ?thesis using f2 f3 f4 unfolding w1_def [symmetric] s_def [symmetric]
      by (auto intro: same_module_trans)
  qed
qed

lemma setValue_failed_early:
  assumes "scope \<notin> set scopes \<or> getSetting_index (settings w) name = None
           \<or> (\<exists>i. getSetting_index (settings w) name = Some i \<and> s_val (settings w ! i) = None)"
  shows "snd (setValue w name scope v) = w \<and> fst (setValue w name scope v) \<noteq> None"
  using assms by (auto simp: setValue_def)

subsection \<open>setValue followed by getValue\<close>

lemma find_only_scope:
  assumes "scope \<in> set scs" and "scope \<notin> set ign" and "set scs - {scope} \<subseteq> set ign"
  shows "find (\<lambda>sc. sc \<notin> set ign \<and> m sc \<noteq> JUndefined) scs
           = (if m scope \<noteq> JUndefined then Some scope else None)"
proof (cases "m scope = JUndefined")
  case True
  have "\<forall>sc \<in> set scs. \<not> (sc \<notin> set ign \<and> m sc \<noteq> JUndefined)"
    using assms(3) True by blast
  then show ?thesis using True by (simp add: find_None_iff)
next
  case False
  have others: "\<forall>sc \<in> set scs. sc \<noteq> scope \<longrightarrow> sc \<in> set ign" using assms(3) by blast
  have "find (\<lambda>sc. sc \<notin> set ign \<and> m sc \<noteq> JUndefined) scs = Some scope"
    using assms(1) others
  proof (induction scs)
    case Nil
    then show ?case by simp
  next
    case (Cons a scs)
    show ?case
    proof (cases "a = scope")
      case True
      then show ?thesis using assms(2) False by simp
    next
      case neq: False
      then have "a \<in> set ign" using Cons.prems(2) by simp
      moreover have "scope \<in> set scs" using Cons.prems(1) neq by simp
      moreover have "\<forall>sc \<in> set scs. sc \<noteq> scope \<longrightarrow> sc \<in> set ign" using Cons.prems(2) by simp
      ultimately show ?thesis using Cons.IH by simp
    qed
  qed
  then show ?thesis using False by simp
qed

lemma getValue_only_scope:
  assumes "getSetting w name = Some s" and "s_val s = Some m"
    and "scope \<in> set scopes" and "scope \<notin> set (ignoredScopes w)"
    and "set scopes - {scope} \<subseteq> set (ignoredScopes w)"
  shows "getValue w name = Inr (if m scope = JUndefined then JNull else m scope)"
  using assms(1,2) find_only_scope [OF assms(3,4,5), of m]
  by (simp add: getValue_def getValue_loop_find)



subsection \<open>exportSettings\<close>

lemma exportSettings_scopes_Some:
  "exportSettings_scopes (Some m) scope scs acc = Inr (acc ++ export_row m scope scs)"
proof (induction scs arbitrary: acc)
  case Nil
  then show ?case by (simp add: export_row_def map_add_def)
next
  case (Cons a scs)
  have "(if truthy (m a) \<and> (loose_eq_str scope a \<or> \<not> truthy scope) then acc(a \<mapsto> m a) else acc)
          ++ export_row m scope scs = acc ++ export_row m scope (a # scs)"
    by (rule ext) (auto simp: export_row_def map_add_def)
  then show ?case using Cons.IH by simp
qed

lemma exportSettings_scopes_None:
  "exportSettings_scopes None scope scs acc = (if scs = [] then Inr acc else Inl TypeError)"
  by (cases scs) simp_all

lemma exportSettings_row:
  "exportSettings_scopes (s_val s) scope scopes Map.empty =
     (case s_val s of None \<Rightarrow> Inl TypeError | Some m \<Rightarrow> Inr (export_row m scope scopes))"
proof (cases "s_val s")
  case None
  have "scopes \<noteq> []" by (simp add: scopes_def)
  then show ?thesis using None by (simp add: exportSettings_scopes_None)
next
  case (Some m)
  have "Map.empty ++ export_row m scope scopes = export_row m scope scopes" by simp
  then show ?thesis using Some by (simp add: exportSettings_scopes_Some)
qed

lemma store_row_other: "k \<noteq> key \<Longrightarrow> store_row out key vals k = out k"
  by (simp add: store_row_def)

lemma store_row_same: "key \<noteq> ''__proto__'' \<Longrightarrow> store_row out key vals key = Some vals"
  by (simp add: store_row_def)

lemma store_row_cases:
  "store_row out key vals k = Some r \<Longrightarrow> out k = Some r \<or> (k = key \<and> r = vals)"
  by (auto simp: store_row_def split: if_splits)

lemma store_row_proto: "store_row out key vals ''__proto__'' = out ''__proto__''"
  by (simp add: store_row_def)

lemma exportSettings_loop_Cons:
  "exportSettings_loop (s # ss) scope out =
     (case s_val s of
        None \<Rightarrow> Inl TypeError
      | Some m \<Rightarrow>
          exportSettings_loop ss scope
            (store_row out (field_str (s_name s)) (export_row m scope scopes)))"
  by (simp add: exportSettings_row split: option.splits)

lemma exportSettings_loop_ConsD:
  assumes "exportSettings_loop (s # ss) scope out = Inr out'"
  shows "\<exists>m. s_val s = Some m
           \<and> exportSettings_loop ss scope
                (store_row out (field_str (s_name s)) (export_row m scope scopes)) = Inr out'"
proof (cases "s_val s")
  case None
  then show ?thesis using assms by (simp add: exportSettings_loop_Cons del: exportSettings_loop.simps)
next
  case (Some m)
  then show ?thesis using assms by (simp add: exportSettings_loop_Cons del: exportSettings_loop.simps)
qed

lemma exportSettings_loop_ok:
  "(\<exists>out'. exportSettings_loop ss scope out = Inr out') \<longleftrightarrow> (\<forall>s \<in> set ss. s_val s \<noteq> None)"
proof (induction ss arbitrary: out)
  case Nil
  then show ?case by simp
next
  case (Cons s ss)
  show ?case
  proof (cases "s_val s")
    case None
    then show ?thesis by (simp add: exportSettings_loop_Cons del: exportSettings_loop.simps)
  next
    case (Some m)
    have unfold: "exportSettings_loop (s # ss) scope out
                    = exportSettings_loop ss scope
                        (store_row out (field_str (s_name s)) (export_row m scope scopes))"
      using Some by (simp add: exportSettings_loop_Cons del: exportSettings_loop.simps)
    have "(\<forall>x \<in> set (s # ss). s_val x \<noteq> None) \<longleftrightarrow> (\<forall>x \<in> set ss. s_val x \<noteq> None)"
      using Some by simp
    then show ?thesis
      unfolding unfold
      using Cons.IH [of "store_row out (field_str (s_name s)) (export_row m scope scopes)"] by blast
  qed
qed

lemma exportSettings_loop_error:
  "exportSettings_loop ss scope out = Inl e \<Longrightarrow> e = TypeError"
proof (induction ss arbitrary: out)
  case Nil
  then show ?case by simp
next
  case (Cons s ss)
  show ?case
  proof (cases "s_val s")
    case None
    then show ?thesis using Cons.prems
      by (simp add: exportSettings_loop_Cons del: exportSettings_loop.simps)
  next
    case (Some m)
    have "exportSettings_loop ss scope
            (store_row out (field_str (s_name s)) (export_row m scope scopes)) = Inl e"
      using Some Cons.prems by (simp add: exportSettings_loop_Cons del: exportSettings_loop.simps)
    then show ?thesis by (rule Cons.IH)
  qed
qed

lemma exportSettings_loop_missing:
  assumes "\<exists>s \<in> set ss. s_val s = None"
  shows "exportSettings_loop ss scope out = Inl TypeError"
proof (cases "exportSettings_loop ss scope out")
  case (Inl e)
  then show ?thesis using exportSettings_loop_error [OF Inl] by simp
next
  case (Inr out')
  then have "\<forall>s \<in> set ss. s_val s \<noteq> None" using exportSettings_loop_ok by blast
  then show ?thesis using assms by blast
qed

lemma exportSettings_loop_proto:
  "exportSettings_loop ss scope out = Inr out' \<Longrightarrow> out' ''__proto__'' = out ''__proto__''"
proof (induction ss arbitrary: out)
  case Nil
  then show ?case by simp
next
  case (Cons s ss)
  from exportSettings_loop_ConsD [OF Cons.prems] obtain m where
    r: "exportSettings_loop ss scope
          (store_row out (field_str (s_name s)) (export_row m scope scopes)) = Inr out'"
    by blast
  show ?case using Cons.IH [OF r] by (simp add: store_row_proto)
qed

lemma exportSettings_loop_origin:
  "exportSettings_loop ss scope out = Inr out' \<Longrightarrow> out' k = Some row \<Longrightarrow>
   out k = Some row \<or>
   (\<exists>s \<in> set ss. field_str (s_name s) = k \<and> (\<exists>m. s_val s = Some m \<and> row = export_row m scope scopes))"
proof (induction ss arbitrary: out)
  case Nil
  then show ?case by simp
next
  case (Cons s ss)
  from exportSettings_loop_ConsD [OF Cons.prems(1)] obtain m where m: "s_val s = Some m"
    and r: "exportSettings_loop ss scope
              (store_row out (field_str (s_name s)) (export_row m scope scopes)) = Inr out'"
    by blast
  from Cons.IH [OF r Cons.prems(2)]
  have "store_row out (field_str (s_name s)) (export_row m scope scopes) k = Some row
        \<or> (\<exists>s \<in> set ss. field_str (s_name s) = k \<and> (\<exists>m. s_val s = Some m \<and> row = export_row m scope scopes))" .
  then show ?case
  proof
    assume "store_row out (field_str (s_name s)) (export_row m scope scopes) k = Some row"
    then have "out k = Some row \<or> (k = field_str (s_name s) \<and> row = export_row m scope scopes)"
      by (rule store_row_cases)
    then show ?thesis using m by auto
  next
    assume "\<exists>s \<in> set ss. field_str (s_name s) = k \<and> (\<exists>m. s_val s = Some m \<and> row = export_row m scope scopes)"
    then show ?thesis by auto
  qed
qed

lemma exportSettings_loop_other:
  "exportSettings_loop ss scope out = Inr out' \<Longrightarrow> \<forall>s \<in> set ss. field_str (s_name s) \<noteq> k \<Longrightarrow>
   out' k = out k"
proof (induction ss arbitrary: out)
  case Nil
  then show ?case by simp
next
  case (Cons s ss)
  from exportSettings_loop_ConsD [OF Cons.prems(1)] obtain m where m: "s_val s = Some m"
    and r: "exportSettings_loop ss scope
              (store_row out (field_str (s_name s)) (export_row m scope scopes)) = Inr out'"
    by blast
  have ne: "k \<noteq> field_str (s_name s)" and rest: "\<forall>s \<in> set ss. field_str (s_name s) \<noteq> k"
    using Cons.prems(2) by auto
  have "out' k = store_row out (field_str (s_name s)) (export_row m scope scopes) k"
    using Cons.IH [OF r rest] .
  also have "\<dots> = out k" using ne by (rule store_row_other)
  finally show ?case .
qed

lemma exportSettings_loop_distinct:
  "exportSettings_loop ss scope out = Inr out' \<Longrightarrow> distinct (map (\<lambda>s. field_str (s_name s)) ss) \<Longrightarrow>
   s \<in> set ss \<Longrightarrow> s_val s = Some m \<Longrightarrow> field_str (s_name s) \<noteq> ''__proto__'' \<Longrightarrow>
   out' (field_str (s_name s)) = Some (export_row m scope scopes)"
proof (induction ss arbitrary: out)
  case Nil
  then show ?case by simp
next
  case (Cons a ss)
  from exportSettings_loop_ConsD [OF Cons.prems(1)] obtain ma where ma: "s_val a = Some ma"
    and r: "exportSettings_loop ss scope
              (store_row out (field_str (s_name a)) (export_row ma scope scopes)) = Inr out'"
    by blast
  have d: "distinct (map (\<lambda>s. field_str (s_name s)) ss)"
    and na: "field_str (s_name a) \<notin> (\<lambda>s. field_str (s_name s)) ` set ss"
    using Cons.prems(2) by simp_all
  show ?case
  proof (cases "s \<in> set ss")
    case True
    then show ?thesis using Cons.IH [OF r d True Cons.prems(4,5)] by simp
  next
    case False
    then have sa: "s = a" using Cons.prems(3) by simp
    have "\<forall>x \<in> set ss. field_str (s_name x) \<noteq> field_str (s_name a)"
      using na by (metis image_eqI)
    then have "out' (field_str (s_name a))
                 = store_row out (field_str (s_name a)) (export_row ma scope scopes) (field_str (s_name a))"
      using exportSettings_loop_other [OF r] by blast
    also have "\<dots> = Some (export_row ma scope scopes)"
      using Cons.prems(5) sa by (simp add: store_row_same)
    finally show ?thesis using sa ma Cons.prems(4) by simp
  qed
qed

lemma export_row_le:
  "\<not> truthy f \<Longrightarrow> export_row m scope scs \<subseteq>\<^sub>m export_row m f scs"
  by (auto simp: export_row_def map_le_def split: if_splits)

lemma exportSettings_loop_le:
  assumes "\<not> truthy f"
  shows "exportSettings_loop ss scope o1 = Inr o1' \<Longrightarrow>
         \<forall>k. rel_option (\<subseteq>\<^sub>m) (o1 k) (o2 k) \<Longrightarrow>
         \<exists>o2'. exportSettings_loop ss f o2 = Inr o2' \<and> (\<forall>k. rel_option (\<subseteq>\<^sub>m) (o1' k) (o2' k))"
proof (induction ss arbitrary: o1 o2)
  case Nil
  then show ?case by simp
next
  case (Cons s ss)
  from exportSettings_loop_ConsD [OF Cons.prems(1)] obtain m where m: "s_val s = Some m"
    and r: "exportSettings_loop ss scope
              (store_row o1 (field_str (s_name s)) (export_row m scope scopes)) = Inr o1'"
    by blast
  have rel: "\<forall>k. rel_option (\<subseteq>\<^sub>m)
                   (store_row o1 (field_str (s_name s)) (export_row m scope scopes) k)
                   (store_row o2 (field_str (s_name s)) (export_row m f scopes) k)"
    using Cons.prems(2) export_row_le [OF assms, of m scope scopes] by (simp add: store_row_def)
  have unfold: "exportSettings_loop (s # ss) f o2
                  = exportSettings_loop ss f
                      (store_row o2 (field_str (s_name s)) (export_row m f scopes))"
    using m by (simp add: exportSettings_loop_Cons del: exportSettings_loop.simps)
  from Cons.IH [OF r rel] show ?case unfolding unfold .
qed

text \<open>
  C7, as the code has it. While some setting has no values object (before \<open>loadSettings\<close>)
  \<open>exportSettings\<close> raises a TypeError for every argument; when every setting has one it
  returns a mapping. A mapping it returns holds for a name and a scope only a truthy value,
  which is the value recorded for that scope by a setting of that name, and only for a
  scope that the argument selects. With a falsy argument and names that differ from each
  other, every truthy value of every scope of a setting is exported, unless the setting is
  named \<open>__proto__\<close>: under that name the mapping never has an entry. Every name and every
  scope of a name in \<open>exportSettings("local")\<close> is in \<open>exportSettings()\<close>, with the same value.
\<close>

theorem exportSettings_truthy_only:
  "(exportSettings w scope = Inr out \<and> out n = Some row \<and> row sc = Some v \<longrightarrow>
      truthy v \<and> sc \<in> set scopes \<and> (loose_eq_str scope sc \<or> \<not> truthy scope)
      \<and> (\<exists>s \<in> set (settings w). field_str (s_name s) = n \<and> (\<exists>m. s_val s = Some m \<and> m sc = v)))
   \<and> (\<not> truthy scope \<and> exportSettings w scope = Inr out
        \<and> distinct (map (\<lambda>s. field_str (s_name s)) (settings w))
        \<and> s \<in> set (settings w) \<and> s_val s = Some m \<and> field_str (s_name s) \<noteq> ''__proto__'' \<longrightarrow>
        (\<exists>r. out (field_str (s_name s)) = Some r
              \<and> (\<forall>sc \<in> set scopes. truthy (m sc) \<longrightarrow> r sc = Some (m sc))))
   \<and> (exportSettings w (JStr ''local'') = Inr o1 \<longrightarrow>
        (\<exists>o2. exportSettings w JUndefined = Inr o2 \<and> dom o1 \<subseteq> dom o2
               \<and> (\<forall>k r1. o1 k = Some r1 \<longrightarrow> (\<exists>r2. o2 k = Some r2 \<and> r1 \<subseteq>\<^sub>m r2))))
   \<and> ((\<forall>s \<in> set (settings w). s_val s \<noteq> None) \<longrightarrow> (\<exists>out'. exportSettings w scope = Inr out'))
   \<and> ((\<exists>s \<in> set (settings w). s_val s = None) \<longrightarrow> exportSettings w scope = Inl TypeError)
   \<and> (exportSettings w scope = Inr out \<longrightarrow> out ''__proto__'' = None)"
proof (intro conjI impI)
  assume a: "exportSettings w scope = Inr out \<and> out n = Some row \<and> row sc = Some v"
  then have "Map.empty n = Some row \<or>
     (\<exists>s \<in> set (settings w). field_str (s_name s) = n \<and> (\<exists>m. s_val s = Some m \<and> row = export_row m scope scopes))"
    using exportSettings_loop_origin [of "settings w" scope Map.empty out n row]
    by (simp add: exportSettings_def)
  then obtain s m where s: "s \<in> set (settings w)" "field_str (s_name s) = n" "s_val s = Some m"
    and row: "row = export_row m scope scopes" by auto
  have v: "export_row m scope scopes sc = Some v" using a row by simp
  then have p: "sc \<in> set scopes \<and> truthy (m sc) \<and> (loose_eq_str scope sc \<or> \<not> truthy scope) \<and> m sc = v"
    by (simp add: export_row_def split: if_splits)
  show "truthy v" using p by auto
  show "sc \<in> set scopes" using p by simp
  show "loose_eq_str scope sc \<or> \<not> truthy scope" using p by simp
  show "\<exists>s \<in> set (settings w). field_str (s_name s) = n \<and> (\<exists>m. s_val s = Some m \<and> m sc = v)"
    using s p by blast
next
  assume a: "\<not> truthy scope \<and> exportSettings w scope = Inr out
        \<and> distinct (map (\<lambda>s. field_str (s_name s)) (settings w))
        \<and> s \<in> set (settings w) \<and> s_val s = Some m \<and> field_str (s_name s) \<noteq> ''__proto__''"
  then have "out (field_str (s_name s)) = Some (export_row m scope scopes)"
    using exportSettings_loop_distinct [of "settings w" scope Map.empty out s m]
    by (simp add: exportSettings_def)
  moreover have "\<forall>sc \<in> set scopes. truthy (m sc) \<longrightarrow> export_row m scope scopes sc = Some (m sc)"
    using a by (simp add: export_row_def)
  ultimately show "\<exists>r. out (field_str (s_name s)) = Some r
              \<and> (\<forall>sc \<in> set scopes. truthy (m sc) \<longrightarrow> r sc = Some (m sc))"
    by blast
next
  assume a: "exportSettings w (JStr ''local'') = Inr o1"
  have f: "\<not> truthy JUndefined" by simp
  have "\<forall>k. rel_option (\<subseteq>\<^sub>m) ((Map.empty :: export) k) ((Map.empty :: export) k)" by simp
  from exportSettings_loop_le [OF f _ this, of "settings w" "JStr ''local''" o1] a
  obtain o2 where o2: "exportSettings w JUndefined = Inr o2"
    and rel: "\<forall>k. rel_option (\<subseteq>\<^sub>m) (o1 k) (o2 k)"
    by (auto simp: exportSettings_def)
  have sub: "\<forall>k r1. o1 k = Some r1 \<longrightarrow> (\<exists>r2. o2 k = Some r2 \<and> r1 \<subseteq>\<^sub>m r2)"
  proof (intro allI impI)
    fix k r1 assume "o1 k = Some r1"
    then show "\<exists>r2. o2 k = Some r2 \<and> r1 \<subseteq>\<^sub>m r2"
      using rel [rule_format, of k] by (cases "o2 k") simp_all
  qed
  then have "dom o1 \<subseteq> dom o2" by (auto simp: dom_def)
  then show "\<exists>o2. exportSettings w JUndefined = Inr o2 \<and> dom o1 \<subseteq> dom o2
               \<and> (\<forall>k r1. o1 k = Some r1 \<longrightarrow> (\<exists>r2. o2 k = Some r2 \<and> r1 \<subseteq>\<^sub>m r2))"
    using o2 sub by blast
next
  assume "\<forall>s \<in> set (settings w). s_val s \<noteq> None"
  then show "\<exists>out'. exportSettings w scope = Inr out'"
    using exportSettings_loop_ok [of "settings w" scope Map.empty] by (simp add: exportSettings_def)
next
  assume "\<exists>s \<in> set (settings w). s_val s = None"
  then show "exportSettings w scope = Inl TypeError"
    using exportSettings_loop_missing [of "settings w" scope Map.empty]
    by (simp add: exportSettings_def)
next
  assume "exportSettings w scope = Inr out"
  then show "out ''__proto__'' = None"
    using exportSettings_loop_proto [of "settings w" scope Map.empty out]
    by (simp add: exportSettings_def)
qed

theorem exportSettings_truthy_only_witness:
  "\<exists>out row. exportSettings (flag_world mixed_values []) JUndefined = Inr out
      \<and> out ''flag'' = Some row
      \<and> row ''local'' = None
      \<and> row ''global'' = Some (JStr ''x'')
      \<and> row ''get'' = Some (JBool True)"
proof -
  let ?W = "flag_world mixed_values []"
  have st: "settings ?W = [flag_setting mixed_values]" by (simp add: flag_world_def)
  have sv: "s_val (flag_setting mixed_values) = Some mixed_values" by (simp add: flag_setting_def)
  have key: "field_str (s_name (flag_setting mixed_values)) = ''flag''"
    by (simp add: flag_setting_def entry_def)
  have vals: "mixed_values ''local'' = JBool False" "mixed_values ''global'' = JStr ''x''"
    "mixed_values ''get'' = JBool True"
    by (simp_all add: mixed_values_def no_values_def)
  have "\<forall>s \<in> set (settings ?W). s_val s \<noteq> None" using st sv by simp
  then obtain out where out: "exportSettings ?W JUndefined = Inr out"
    using exportSettings_truthy_only [where w = ?W and scope = JUndefined,
        THEN conjunct2, THEN conjunct2, THEN conjunct2, THEN conjunct1] by blast
  have "\<not> truthy JUndefined \<and> exportSettings ?W JUndefined = Inr out
        \<and> distinct (map (\<lambda>s. field_str (s_name s)) (settings ?W))
        \<and> flag_setting mixed_values \<in> set (settings ?W)
        \<and> s_val (flag_setting mixed_values) = Some mixed_values
        \<and> field_str (s_name (flag_setting mixed_values)) \<noteq> ''__proto__''"
    using out st sv key by simp
  then have "\<exists>r. out (field_str (s_name (flag_setting mixed_values))) = Some r
              \<and> (\<forall>sc \<in> set scopes. truthy (mixed_values sc) \<longrightarrow> r sc = Some (mixed_values sc))"
    using exportSettings_truthy_only [where w = ?W and scope = JUndefined and out = out
        and s = "flag_setting mixed_values" and m = mixed_values, THEN conjunct2, THEN conjunct1]
    by blast
  then obtain row where row: "out ''flag'' = Some row"
    and all: "\<forall>sc \<in> set scopes. truthy (mixed_values sc) \<longrightarrow> row sc = Some (mixed_values sc)"
    using key by auto
  have g: "row ''global'' = Some (JStr ''x'')" and t: "row ''get'' = Some (JBool True)"
    using all vals by (simp_all add: scopes_def)
  have l: "row ''local'' = None"
  proof (cases "row ''local''")
    case None
    then show ?thesis .
  next
    case (Some v)
    then have "exportSettings ?W JUndefined = Inr out \<and> out ''flag'' = Some row \<and> row ''local'' = Some v"
      using out row by simp
    then have "truthy v \<and> (\<exists>s \<in> set (settings ?W). field_str (s_name s) = ''flag''
                 \<and> (\<exists>m. s_val s = Some m \<and> m ''local'' = v))"
      using exportSettings_truthy_only [where w = ?W and scope = JUndefined and out = out
        and n = "''flag''" and row = row and sc = "''local''" and v = v, THEN conjunct1]
      by blast
    then have "truthy v \<and> mixed_values ''local'' = v" using st sv by auto
    then have "truthy (JBool False)" using vals(1) by simp
    then show ?thesis by simp
  qed
  show ?thesis using out row l g t by blast
qed

text \<open>
  The claim C7 as stated fails in the state the module starts in: no setting has a values
  object yet, and \<open>exportSettings\<close> raises a TypeError with no argument and with \<open>"local"\<close>,
  where the claim has it export all scopes.
\<close>

theorem exportSettings_unloaded_counterexample:
  "exportSettings (initial_world Map.empty Map.empty) JUndefined = Inl TypeError
   \<and> exportSettings (initial_world Map.empty Map.empty) (JStr ''local'') = Inl TypeError"
  by (simp add: exportSettings_def initial_world_def initial_settings_def entry_def
      exportSettings_loop_Cons del: exportSettings_loop.simps)

subsection \<open>checkSettingsArray\<close>

lemma logged_Nil [simp]: "logged [] st = st"
  by (simp add: logged_def)

lemma logged_logged [simp]: "logged b (logged a st) = logged (a @ b) st"
  by (simp add: logged_def)

lemma logSettingsError_logged: "logSettingsError st msg = logged [prefixed msg] st"
  by (simp add: logSettingsError_def logged_def prefixed_def Let_def)

lemma log_if_logged: "log_if b msg st = logged (when_msg b msg) st"
  by (simp add: log_if_def when_msg_def logSettingsError_logged)

lemma check_ignoredScopes_logged: "check_ignoredScopes xs st = logged (ignored_errors xs) st"
  by (induction xs arbitrary: st) (simp_all add: ignored_errors_def log_if_logged)

lemma check_control_logged: "check_control sname j c st = logged (control_errors sname j c) st"
  by (cases "ctl_callback c")
     (simp_all add: check_control_def control_errors_def Let_def log_if_logged
        logSettingsError_logged when_msg_def)

lemma check_controls_logged:
  "check_controls sname j cs st = logged (controls_errors sname j cs) st"
  by (induction cs arbitrary: j st)
     (simp_all add: controls_errors_def check_control_logged enumerate_simps)

lemma check_setting_logged: "check_setting i s st = logged (setting_errors i s) st"
  by (cases "s_controls s")
     (simp_all add: check_setting_def setting_errors_def Let_def log_if_logged
        logSettingsError_logged check_controls_logged)

lemma check_settings_logged: "check_settings i ss st = logged (settings_errors i ss) st"
  by (induction ss arbitrary: i st)
     (simp_all add: settings_errors_def check_setting_logged)

lemma collected_errors_eq:
  "collected_errors w = ignored_errors (ignoredScopes w) @ settings_errors 0 (settings w)"
  by (simp add: collected_errors_def check_settings_logged check_ignoredScopes_logged logged_def)

lemma checkSettingsArray_eq:
  "checkSettingsArray w =
     (if array_ne_zero (collected_errors w)
      then Some (Thrown ''Errors occurred when checking the setting-definitions. Check the log.'')
      else None,
      w\<lparr>trace := trace w @ map ConsoleLog (collected_errors w)\<rparr>)"
  by (simp add: checkSettingsArray_def collected_errors_eq check_settings_logged
      check_ignoredScopes_logged logged_def Let_def)

lemma when_msg_prefixed: "e \<in> set (when_msg b msg) \<Longrightarrow> \<exists>m. e = prefixed m"
  by (auto simp: when_msg_def split: if_splits)

lemma ignored_errors_prefixed: "e \<in> set (ignored_errors xs) \<Longrightarrow> \<exists>m. e = prefixed m"
  by (auto simp: ignored_errors_def dest: when_msg_prefixed)

lemma control_errors_prefixed: "e \<in> set (control_errors sname j c) \<Longrightarrow> \<exists>m. e = prefixed m"
  by (auto simp: control_errors_def dest: when_msg_prefixed)

lemma controls_errors_prefixed: "e \<in> set (controls_errors sname j cs) \<Longrightarrow> \<exists>m. e = prefixed m"
  by (auto simp: controls_errors_def dest: control_errors_prefixed)

lemma setting_errors_prefixed: "e \<in> set (setting_errors i s) \<Longrightarrow> \<exists>m. e = prefixed m"
  by (cases "s_controls s")
     (auto simp: setting_errors_def dest: when_msg_prefixed controls_errors_prefixed)

lemma settings_errors_prefixed: "e \<in> set (settings_errors i ss) \<Longrightarrow> \<exists>m. e = prefixed m"
  by (auto simp: settings_errors_def dest: setting_errors_prefixed)

lemma collected_errors_prefixed: "e \<in> set (collected_errors w) \<Longrightarrow> \<exists>m. e = prefixed m"
  by (auto simp: collected_errors_eq dest: ignored_errors_prefixed settings_errors_prefixed)

lemma join_Cons: "\<exists>rest. join (x # xs) = x @ rest"
  by (cases xs) auto

lemma trim_letter:
  assumes "\<not> is_space c"
  shows "\<exists>u. trim (c # t) = c # u"
proof -
  have "dropWhile is_space (c # t) = c # t" using assms by simp
  moreover have "dropWhile is_space (rev t @ [c]) = dropWhile is_space (rev t) @ [c]"
    using assms by (simp add: dropWhile_append3)
  ultimately have "trim (c # t) = c # rev (dropWhile is_space (rev t))"
    by (simp add: trim_def)
  then show ?thesis by blast
qed

lemma str_to_number_prefixed: "str_to_number (prefixed m @ rest) = None"
proof -
  have ns: "\<not> is_space CHR ''s''" by (simp add: is_space_def)
  have "prefixed m @ rest = CHR ''s'' # (''ettings error: '' @ m @ rest)"
    by (simp add: prefixed_def)
  then obtain u where u: "trim (prefixed m @ rest) = CHR ''s'' # u"
    using trim_letter [OF ns] by metis
  have "digit_value CHR ''s'' = None" by (simp add: digit_value_def)
  then show ?thesis using u by (simp add: str_to_number_def)
qed

lemma array_ne_zero_prefixed:
  assumes "\<forall>e \<in> set errs. \<exists>m. e = prefixed m"
  shows "array_ne_zero errs \<longleftrightarrow> errs \<noteq> []"
proof (cases errs)
  case Nil
  then show ?thesis by (simp add: array_ne_zero_def str_to_number_def trim_def)
next
  case (Cons x xs)
  then obtain m where "x = prefixed m" using assms by auto
  moreover obtain rest where "join (x # xs) = x @ rest" using join_Cons by blast
  ultimately have "str_to_number (join errs) = None"
    using Cons str_to_number_prefixed by simp
  then show ?thesis using Cons by (simp add: array_ne_zero_def)
qed

lemma checkSettingsArray_throws_iff:
  "fst (checkSettingsArray w) =
     (if collected_errors w = [] then None
      else Some (Thrown ''Errors occurred when checking the setting-definitions. Check the log.''))"
  using array_ne_zero_prefixed [of "collected_errors w"] collected_errors_prefixed [of _ w]
  by (simp add: checkSettingsArray_eq)

lemma length_ignored_errors:
  "length (ignored_errors xs) = length (filter (\<lambda>x. x \<notin> set scopes) xs)"
  by (induction xs) (simp_all add: ignored_errors_def when_msg_def)

lemma length_control_errors: "(if bad_control c then 1 else 0) \<le> length (control_errors sname j c)"
  by (auto simp: bad_control_def control_errors_def when_msg_def)

lemma length_controls_errors:
  "length (filter bad_control cs) \<le> length (controls_errors sname j cs)"
proof (induction cs arbitrary: j)
  case Nil
  then show ?case by simp
next
  case (Cons c cs)
  have "controls_errors sname j (c # cs) = control_errors sname j c @ controls_errors sname (Suc j) cs"
    by (simp add: controls_errors_def enumerate_simps)
  then show ?case
    using Cons.IH [of "Suc j"] length_control_errors [of c sname j] by (simp split: if_splits)
qed

lemma length_setting_errors: "setting_defects s \<le> length (setting_errors i s)"
  by (cases "s_controls s")
     (simp_all add: setting_defects_def setting_errors_def when_msg_def length_controls_errors)

lemma length_settings_errors:
  "sum_list (map setting_defects ss) \<le> length (settings_errors i ss)"
proof (induction ss arbitrary: i)
  case Nil
  then show ?case by (simp add: settings_errors_def)
next
  case (Cons s ss)
  have "settings_errors i (s # ss) = setting_errors i s @ settings_errors (Suc i) ss"
    by (simp add: settings_errors_def enumerate_simps)
  then show ?case
    using Cons.IH [of "Suc i"] length_setting_errors [of s i] by simp
qed

lemma defects_le: "defects w \<le> length (collected_errors w)"
  using length_settings_errors [of "settings w" 0]
  by (simp add: defects_def collected_errors_eq length_ignored_errors)

lemma ignored_errors_mem:
  "x \<in> set xs \<Longrightarrow> x \<notin> set scopes \<Longrightarrow>
   prefixed (''ignored scope '' @ x @ '' does not exist.'') \<in> set (ignored_errors xs)"
  by (auto simp: ignored_errors_def when_msg_def)

lemma controls_errors_mem:
  assumes "j < length cs"
  shows "set (control_errors sname j (cs ! j)) \<subseteq> set (controls_errors sname 0 cs)"
proof -
  have "(j, cs ! j) \<in> set (enumerate 0 cs)" using assms by (simp add: in_set_enumerate_eq)
  then show ?thesis by (force simp: controls_errors_def)
qed

lemma settings_errors_mem:
  assumes "i < length ss"
  shows "set (setting_errors i (ss ! i)) \<subseteq> set (settings_errors 0 ss)"
proof -
  have "(i, ss ! i) \<in> set (enumerate 0 ss)" using assms by (simp add: in_set_enumerate_eq)
  then show ?thesis by (force simp: settings_errors_def)
qed

lemma setting_name_error:
  assumes "i < length (settings w)" and "not_given (s_name (settings w ! i))"
  shows "prefixed (''name of setting '' @ nat_str i @ '' not given'') \<in> set (collected_errors w)"
proof -
  have "prefixed (''name of setting '' @ nat_str i @ '' not given'')
          \<in> set (setting_errors i (settings w ! i))"
    using assms(2) by (simp add: setting_errors_def when_msg_def)
  then show ?thesis using settings_errors_mem [OF assms(1)] by (auto simp: collected_errors_eq)
qed

lemma control_error_collected:
  assumes "i < length (settings w)" and "s_controls (settings w ! i) = Some cs"
    and "j < length cs"
    and "e \<in> set (control_errors (field_str (s_name (settings w ! i))) j (cs ! j))"
  shows "e \<in> set (collected_errors w)"
proof -
  have "e \<in> set (controls_errors (field_str (s_name (settings w ! i))) 0 cs)"
    using controls_errors_mem [OF assms(3)] assms(4) by blast
  then have "e \<in> set (setting_errors i (settings w ! i))"
    using assms(2) by (simp add: setting_errors_def)
  then show ?thesis using settings_errors_mem [OF assms(1)] by (auto simp: collected_errors_eq)
qed

lemma not_given_iff: "not_given f \<longleftrightarrow> f \<in> {None, Some []}"
  by (cases f) (auto simp: not_given_def)

lemma not_indexed_validTypes:
  "not_indexed validTypes t \<longleftrightarrow> t \<notin> {Some ''control'', Some ''get'', Some ''custom''}"
  by (cases t) (auto simp: validTypes_def)

text \<open>
  C4. \<open>checkSettingsArray\<close> prints exactly the errors it collects, each starting with
  \<open>settings error: \<close>, and throws if and only if it collected at least one. It collects at
  least as many errors as the table has defects, so it throws on any defect, and for each
  kind of defect the message of that defect is among the errors: an ignored scope that is
  not a scope, a setting without a name, a control with an invalid type, a control of type
  \<open>get\<close> without a parameter name.
\<close>

theorem checkSettingsArray_rejects:
  "trace (snd (checkSettingsArray w)) = trace w @ map ConsoleLog (collected_errors w)
   \<and> (\<forall>e \<in> set (collected_errors w). take 16 e = ''settings error: '')
   \<and> fst (checkSettingsArray w) =
       (if collected_errors w = [] then None
        else Some (Thrown ''Errors occurred when checking the setting-definitions. Check the log.''))
   \<and> defects w \<le> length (collected_errors w)
   \<and> (0 < defects w \<longrightarrow> fst (checkSettingsArray w) \<noteq> None)
   \<and> (x \<in> set (ignoredScopes w) \<and> x \<notin> {''local'', ''global'', ''get''} \<longrightarrow>
        ''settings error: ignored scope '' @ x @ '' does not exist.'' \<in> set (collected_errors w))
   \<and> (i < length (settings w) \<and> s_name (settings w ! i) \<in> {None, Some []} \<longrightarrow>
        ''settings error: name of setting '' @ nat_str i @ '' not given''
          \<in> set (collected_errors w))
   \<and> (i < length (settings w) \<and> s_controls (settings w ! i) = Some cs \<and> j < length cs
        \<and> ctl_type (cs ! j) \<notin> {Some ''control'', Some ''get'', Some ''custom''} \<longrightarrow>
        ''settings error: invalid type '' @ field_str (ctl_type (cs ! j)) @ '' for setting ''
          @ nat_str j @ '' in setting '' @ field_str (s_name (settings w ! i))
          \<in> set (collected_errors w))
   \<and> (i < length (settings w) \<and> s_controls (settings w ! i) = Some cs \<and> j < length cs
        \<and> ctl_type (cs ! j) = Some ''get'' \<and> ctl_name (cs ! j) \<in> {None, Some []} \<longrightarrow>
        ''settings error: Name of get-parameter for control '' @ nat_str j @ '' in setting ''
          @ field_str (s_name (settings w ! i)) @ '' not given''
          \<in> set (collected_errors w))"
proof (intro conjI impI ballI)
  show "trace (snd (checkSettingsArray w)) = trace w @ map ConsoleLog (collected_errors w)"
    by (simp add: checkSettingsArray_eq)
next
  fix e assume "e \<in> set (collected_errors w)"
  then obtain m where "e = prefixed m" using collected_errors_prefixed by blast
  then show "take 16 e = ''settings error: ''" by (simp add: prefixed_def)
next
  show "fst (checkSettingsArray w) =
       (if collected_errors w = [] then None
        else Some (Thrown ''Errors occurred when checking the setting-definitions. Check the log.''))"
    by (rule checkSettingsArray_throws_iff)
next
  show "defects w \<le> length (collected_errors w)" by (rule defects_le)
next
  assume "0 < defects w"
  then have "collected_errors w \<noteq> []" using defects_le [of w] by auto
  then show "fst (checkSettingsArray w) \<noteq> None" by (simp add: checkSettingsArray_throws_iff)
next
  assume "x \<in> set (ignoredScopes w) \<and> x \<notin> {''local'', ''global'', ''get''}"
  then have "prefixed (''ignored scope '' @ x @ '' does not exist.'') \<in> set (ignored_errors (ignoredScopes w))"
    using ignored_errors_mem [of x "ignoredScopes w"] by (simp add: scopes_def)
  then show "''settings error: ignored scope '' @ x @ '' does not exist.'' \<in> set (collected_errors w)"
    by (simp add: collected_errors_eq prefixed_def)
next
  assume "i < length (settings w) \<and> s_name (settings w ! i) \<in> {None, Some []}"
  then have "prefixed (''name of setting '' @ nat_str i @ '' not given'') \<in> set (collected_errors w)"
    using setting_name_error [of i w] by (simp add: not_given_iff)
  then show "''settings error: name of setting '' @ nat_str i @ '' not given''
          \<in> set (collected_errors w)"
    by (simp add: prefixed_def)
next
  assume a: "i < length (settings w) \<and> s_controls (settings w ! i) = Some cs \<and> j < length cs
        \<and> ctl_type (cs ! j) \<notin> {Some ''control'', Some ''get'', Some ''custom''}"
  then have "not_indexed validTypes (ctl_type (cs ! j))" by (simp add: not_indexed_validTypes)
  then have "prefixed (''invalid type '' @ field_str (ctl_type (cs ! j)) @ '' for setting ''
          @ nat_str j @ '' in setting '' @ field_str (s_name (settings w ! i)))
          \<in> set (control_errors (field_str (s_name (settings w ! i))) j (cs ! j))"
    by (simp add: control_errors_def when_msg_def)
  then have "prefixed (''invalid type '' @ field_str (ctl_type (cs ! j)) @ '' for setting ''
          @ nat_str j @ '' in setting '' @ field_str (s_name (settings w ! i)))
          \<in> set (collected_errors w)"
    using control_error_collected [of i w cs j] a by blast
  then show "''settings error: invalid type '' @ field_str (ctl_type (cs ! j)) @ '' for setting ''
          @ nat_str j @ '' in setting '' @ field_str (s_name (settings w ! i))
          \<in> set (collected_errors w)"
    by (simp add: prefixed_def)
next
  assume a: "i < length (settings w) \<and> s_controls (settings w ! i) = Some cs \<and> j < length cs
        \<and> ctl_type (cs ! j) = Some ''get'' \<and> ctl_name (cs ! j) \<in> {None, Some []}"
  then have "not_given (ctl_name (cs ! j))" by (simp add: not_given_iff)
  then have "prefixed (''Name of get-parameter for control '' @ nat_str j @ '' in setting ''
          @ field_str (s_name (settings w ! i)) @ '' not given'')
          \<in> set (control_errors (field_str (s_name (settings w ! i))) j (cs ! j))"
    using a by (simp add: control_errors_def when_msg_def)
  then have "prefixed (''Name of get-parameter for control '' @ nat_str j @ '' in setting ''
          @ field_str (s_name (settings w ! i)) @ '' not given'')
          \<in> set (collected_errors w)"
    using control_error_collected [of i w cs j] a by blast
  then show "''settings error: Name of get-parameter for control '' @ nat_str j @ '' in setting ''
          @ field_str (s_name (settings w ! i)) @ '' not given''
          \<in> set (collected_errors w)"
    by (simp add: prefixed_def)
qed

lemma nat_str_digits: "nat_str 0 = ''0''" "nat_str (Suc 0) = ''1''"
  by (simp_all add: nat_str.simps digit_char_def)

lemma collected_errors_broken:
  "collected_errors broken_world =
     [''settings error: ignored scope session does not exist.'',
      ''settings error: name of setting 0 not given'',
      ''settings error: Name of get-parameter for control 0 in setting undefined not given'',
      ''settings error: invalid type slider for setting 1 in setting undefined'']"
  by (simp add: collected_errors_eq broken_world_def ignored_errors_def settings_errors_def
      setting_errors_def controls_errors_def control_errors_def when_msg_def prefixed_def
      enumerate_simps not_given_def scopes_def validTypes_def nat_str_digits)

lemma collected_errors_initial: "collected_errors (initial_world uv doc) = []"
  by (simp add: collected_errors_eq initial_world_def initial_settings_def entry_def
      get_binding_def control_binding_def custom_binding_def ignored_errors_def
      settings_errors_def setting_errors_def controls_errors_def control_errors_def
      when_msg_def enumerate_simps not_given_def scopes_def validTypes_def)

theorem checkSettingsArray_rejects_witness:
  "defects broken_world = 4
   \<and> collected_errors broken_world =
       [''settings error: ignored scope session does not exist.'',
        ''settings error: name of setting 0 not given'',
        ''settings error: Name of get-parameter for control 0 in setting undefined not given'',
        ''settings error: invalid type slider for setting 1 in setting undefined'']
   \<and> checkSettingsArray broken_world =
       (Some (Thrown ''Errors occurred when checking the setting-definitions. Check the log.''),
        broken_world\<lparr>trace := map ConsoleLog (collected_errors broken_world)\<rparr>)
   \<and> fst (checkSettingsArray (initial_world Map.empty Map.empty)) = None"
proof -
  have d: "defects broken_world = 4"
    by (simp add: defects_def setting_defects_def bad_control_def broken_world_def
        not_given_def scopes_def validTypes_def)
  have t: "trace (snd (checkSettingsArray broken_world))
             = trace broken_world @ map ConsoleLog (collected_errors broken_world)"
    and f: "fst (checkSettingsArray broken_world) =
       (if collected_errors broken_world = [] then None
        else Some (Thrown ''Errors occurred when checking the setting-definitions. Check the log.''))"
    using checkSettingsArray_rejects [where w = broken_world] by blast+
  have f': "fst (checkSettingsArray broken_world)
              = Some (Thrown ''Errors occurred when checking the setting-definitions. Check the log.'')"
    using f by (simp add: collected_errors_broken)
  have s: "snd (checkSettingsArray broken_world)
             = broken_world\<lparr>trace := map ConsoleLog (collected_errors broken_world)\<rparr>"
    by (simp add: checkSettingsArray_eq broken_world_def)
  have ok: "fst (checkSettingsArray (initial_world Map.empty Map.empty)) = None"
    using checkSettingsArray_rejects [where w = "initial_world Map.empty Map.empty"]
    by (simp add: collected_errors_initial)
  show ?thesis using d collected_errors_broken f' s ok by (simp add: prod_eq_iff)
qed

subsection \<open>loadSettings\<close>

lemma same_module_sym: "same_module a b \<Longrightarrow> same_module b a"
  by (simp add: same_module_def)

lemma getSetting_index_distinct:
  "distinct (map s_name ss) \<Longrightarrow> i < length ss \<Longrightarrow> getSetting_index ss (s_name (ss ! i)) = Some i"
proof (induction ss arbitrary: i)
  case Nil
  then show ?case by simp
next
  case (Cons a ss)
  show ?case
  proof (cases i)
    case 0
    then show ?thesis by simp
  next
    case (Suc k)
    then have k: "k < length ss" using Cons.prems(2) by simp
    then have "s_name (ss ! k) \<in> set (map s_name ss)" by simp
    then have "s_name a \<noteq> s_name (ss ! k)" using Cons.prems(1) by auto
    then show ?thesis using Suc Cons.IH [OF _ k] Cons.prems(1) by simp
  qed
qed

lemma setValue_same_value:
  assumes "scope \<in> set scopes" and "getSetting_index (settings w) name = Some i"
    and "s_val (settings w ! i) = Some m"
  shows "same_module w (snd (setValue w name scope (m scope)))"
proof -
  have "(settings w ! i)\<lparr>s_val := Some (m(scope := m scope))\<rparr> = settings w ! i"
    using assms(3) by simp
  then have "w\<lparr>settings := (settings w)[i := (settings w ! i)\<lparr>s_val := Some (m(scope := m scope))\<rparr>]\<rparr> = w"
    by simp
  then show ?thesis using setValue_state [OF assms, of "m scope"] by simp
qed

lemma load_commit_frame:
  assumes "distinct (map s_name (settings w))" and "i < length (settings w)"
    and "set scs \<subseteq> set scopes"
  shows "same_module w (snd (load_commit w i scs))"
  using assms
proof (induction scs arbitrary: w)
  case Nil
  then show ?case by simp
next
  case (Cons sc scs)
  show ?case
  proof (cases "s_val (settings w ! i)")
    case None
    then show ?thesis by simp
  next
    case (Some m)
    show ?thesis
    proof (cases "m sc = JUndefined")
      case True
      then show ?thesis using Some Cons by simp
    next
      case False
      obtain e w' where r: "setValue w (s_name (settings w ! i)) sc (m sc) = (e, w')"
        by (cases "setValue w (s_name (settings w ! i)) sc (m sc)")
      have sc: "sc \<in> set scopes" using Cons.prems(3) by simp
      have idx: "getSetting_index (settings w) (s_name (settings w ! i)) = Some i"
        using getSetting_index_distinct [OF Cons.prems(1,2)] .
      have f: "same_module w w'" using setValue_same_value [OF sc idx Some] r by simp
      show ?thesis
      proof (cases e)
        case None
        have st: "settings w' = settings w" using f by (simp add: same_module_def)
        have "same_module w' (snd (load_commit w' i scs))"
          using Cons.IH [of w'] Cons.prems st by simp
        then show ?thesis using Some False r None f by (auto intro: same_module_trans)
      next
        case (Some a)
        then show ?thesis using \<open>s_val (settings w ! i) = Some m\<close> False r f by simp
      qed
    qed
  qed
qed

lemma load_setting_effect:
  assumes "fst (load_setting w i) = None" and "distinct (map s_name (settings w))"
    and "i < length (settings w)"
  shows "same_module
           (w\<lparr>settings := (settings w)[i := seeded (urlVars w) (settings w ! i)]\<rparr>)
           (snd (load_setting w i))"
proof -
  obtain cs where cs: "s_controls (settings w ! i) = Some cs"
    using assms(1) by (cases "s_controls (settings w ! i)") (auto simp: load_setting_def Let_def)
  obtain e m where lc: "load_controls (urlVars w) cs (no_values(''local'' := s_defaultValue (settings w ! i))) = (e, m)"
    by (cases "load_controls (urlVars w) cs (no_values(''local'' := s_defaultValue (settings w ! i)))")
  have e: "e = None"
    using assms(1) cs lc by (cases e) (auto simp: load_setting_def Let_def no_values_def)
  define w1 where "w1 = w\<lparr>settings := (settings w)[i := (settings w ! i)\<lparr>s_val := Some m\<rparr>]\<rparr>"
  have sd: "seeded (urlVars w) (settings w ! i) = (settings w ! i)\<lparr>s_val := Some m\<rparr>"
    using cs lc by (simp add: seeded_def)
  have res: "load_setting w i = load_commit w1 i scopes"
    using cs lc e by (simp add: load_setting_def Let_def no_values_def w1_def)
  have names: "map s_name (settings w1) = map s_name (settings w)"
    using assms(3) by (simp add: w1_def map_update list_update_same_conv)
  have "same_module w1 (snd (load_commit w1 i scopes))"
    using load_commit_frame [of w1 i scopes] assms(2,3) names by (simp add: w1_def)
  then show ?thesis using res sd by (simp add: w1_def)
qed

lemma fold_update_take:
  "k \<le> length ss \<Longrightarrow>
   fold (\<lambda>i xs. xs[i := f (xs ! i)]) [0..<k] ss = map f (take k ss) @ drop k ss"
proof (induction k)
  case 0
  then show ?case by simp
next
  case (Suc k)
  then have k: "k < length ss" by simp
  have d: "drop k ss = ss ! k # drop (Suc k) ss" using k by (simp add: Cons_nth_drop_Suc)
  have l: "length (map f (take k ss)) = k" using k by simp
  have "fold (\<lambda>i xs. xs[i := f (xs ! i)]) [0..<Suc k] ss
          = (map f (take k ss) @ drop k ss)[k := f ((map f (take k ss) @ drop k ss) ! k)]"
    using Suc by simp
  also have "(map f (take k ss) @ drop k ss) ! k = ss ! k"
    using l d by (simp add: nth_append)
  also have "(map f (take k ss) @ drop k ss)[k := f (ss ! k)]
               = map f (take k ss) @ (f (ss ! k) # drop (Suc k) ss)"
    using l d by (simp add: list_update_append)
  also have "\<dots> = map f (take (Suc k) ss) @ drop (Suc k) ss"
    using k by (simp add: take_Suc_conv_app_nth)
  finally show ?case .
qed

lemma fold_update_map:
  "fold (\<lambda>i xs. xs[i := f (xs ! i)]) [0..<length ss] ss = map f ss"
  using fold_update_take [of "length ss" ss f] by simp

lemma seeded_name [simp]: "s_name (seeded uv s) = s_name s"
  by (simp add: seeded_def)

lemma load_settings_effect:
  assumes "fst (load_settings w is) = None" and "distinct (map s_name (settings w))"
    and "\<forall>i \<in> set is. i < length (settings w)"
  shows "same_module
           (w\<lparr>settings := fold (\<lambda>i xs. xs[i := seeded (urlVars w) (xs ! i)]) is (settings w)\<rparr>)
           (snd (load_settings w is))"
  using assms
proof (induction "is" arbitrary: w)
  case Nil
  then show ?case by simp
next
  case (Cons i "is")
  obtain e w1 where r: "load_setting w i = (e, w1)" by (cases "load_setting w i")
  have e: "e = None" using Cons.prems(1) r by (cases e) auto
  have i: "i < length (settings w)" using Cons.prems(3) by simp
  have f1: "same_module (w\<lparr>settings := (settings w)[i := seeded (urlVars w) (settings w ! i)]\<rparr>) w1"
    using load_setting_effect [of w i] r e Cons.prems(2) i by simp
  then have st: "settings w1 = (settings w)[i := seeded (urlVars w) (settings w ! i)]"
    and uv: "urlVars w1 = urlVars w"
    by (simp_all add: same_module_def)
  have names: "map s_name (settings w1) = map s_name (settings w)"
    using i by (simp add: st map_update list_update_same_conv)
  have rest: "fst (load_settings w1 is) = None" using Cons.prems(1) r e by simp
  have "same_module
          (w1\<lparr>settings := fold (\<lambda>i xs. xs[i := seeded (urlVars w1) (xs ! i)]) is (settings w1)\<rparr>)
          (snd (load_settings w1 is))"
    using Cons.IH [OF rest] Cons.prems(2,3) names st by simp
  moreover have "same_module
          (w\<lparr>settings := fold (\<lambda>i xs. xs[i := seeded (urlVars w) (xs ! i)]) (i # is) (settings w)\<rparr>)
          (w1\<lparr>settings := fold (\<lambda>i xs. xs[i := seeded (urlVars w1) (xs ! i)]) is (settings w1)\<rparr>)"
    using f1 by (simp add: same_module_def)
  ultimately show ?case using r e by (auto intro: same_module_trans)
qed

lemma checkSettingsArray_frame: "same_module w (snd (checkSettingsArray w))"
  by (simp add: checkSettingsArray_eq)

lemma load_callbacks_frame: "same_module w (snd (load_callbacks w ss))"
proof (induction ss arbitrary: w)
  case Nil
  then show ?case by simp
next
  case (Cons s ss)
  obtain e w' where r: "call_callback w s (s_name s) = (e, w')" by (cases "call_callback w s (s_name s)")
  have f: "same_module w w'" using call_callback_frame [of w s "s_name s"] r by simp
  show ?case
  proof (cases e)
    case None
    then show ?thesis using r f Cons.IH [of w'] by (auto intro: same_module_trans)
  next
    case (Some a)
    then show ?thesis using r f by simp
  qed
qed

lemma loadSettings_effect:
  assumes "fst (loadSettings w) = None" and "distinct (map s_name (settings w))"
  shows "settings (snd (loadSettings w)) = map (seeded (urlVars w)) (settings w)
         \<and> ignoredScopes (snd (loadSettings w)) = ignoredScopes w
         \<and> loaded (snd (loadSettings w))
         \<and> urlVars (snd (loadSettings w)) = urlVars w
         \<and> document (snd (loadSettings w)) = document w"
proof -
  obtain e1 w1 where r1: "checkSettingsArray w = (e1, w1)" by (cases "checkSettingsArray w")
  have e1: "e1 = None" using assms(1) r1 by (cases e1) (auto simp: loadSettings_def)
  have f1: "same_module w w1" using checkSettingsArray_frame [of w] r1 by simp
  obtain e2 w2 where r2: "load_settings w1 [0..<length (settings w1)] = (e2, w2)"
    by (cases "load_settings w1 [0..<length (settings w1)]")
  have e2: "e2 = None" using assms(1) r1 e1 r2 by (cases e2) (auto simp: loadSettings_def)
  obtain e3 w3 where r3: "load_callbacks w2 (settings w2) = (e3, w3)"
    by (cases "load_callbacks w2 (settings w2)")
  have e3: "e3 = None" using assms(1) r1 e1 r2 e2 r3 by (cases e3) (auto simp: loadSettings_def)
  have res: "loadSettings w = saveToCookie (w3\<lparr>loaded := True\<rparr>)"
    using r1 e1 r2 e2 r3 e3 by (simp add: loadSettings_def)
  have st1: "settings w1 = settings w" "urlVars w1 = urlVars w"
    using f1 by (simp_all add: same_module_def)
  have "same_module
          (w1\<lparr>settings := fold (\<lambda>i xs. xs[i := seeded (urlVars w1) (xs ! i)])
                             [0..<length (settings w1)] (settings w1)\<rparr>) w2"
    using load_settings_effect [of w1 "[0..<length (settings w1)]"] r2 e2 assms(2) st1 by simp
  then have f2: "same_module (w1\<lparr>settings := map (seeded (urlVars w)) (settings w)\<rparr>) w2"
    by (simp add: fold_update_map st1)
  have f3: "same_module w2 w3" using load_callbacks_frame [of w2 "settings w2"] r3 by simp
  have f4: "same_module (w3\<lparr>loaded := True\<rparr>) (snd (saveToCookie (w3\<lparr>loaded := True\<rparr>)))"
    by (rule saveToCookie_frame)
  show ?thesis using f1 f2 f3 f4 res by (simp add: same_module_def)
qed

lemma setControlSettingValue_ok:
  "widget_ok (document w) c \<Longrightarrow> fst (setControlSettingValue w c n v) = None"
  by (auto simp: widget_ok_def setControlSettingValue_def Let_def split: option.splits)

lemma setValue_controls_ok:
  "list_all (\<lambda>c. ctl_type c = Some ''control'' \<longrightarrow> widget_ok (document w) c) cs \<Longrightarrow>
   fst (setValue_controls w cs n sc v) = None"
proof (induction cs arbitrary: w)
  case Nil
  then show ?case by simp
next
  case (Cons c cs)
  show ?case
  proof (cases "ctl_scope c = Some sc \<and> ctl_type c = Some ''control''")
    case False
    then show ?thesis using Cons by auto
  next
    case True
    obtain e w' where r: "setControlSettingValue w c n v = (e, w')"
      by (cases "setControlSettingValue w c n v")
    have e: "e = None" using setControlSettingValue_ok [of w c n v] Cons.prems True r by simp
    have "document w' = document w"
      using setControlSettingValue_frame [of w c n v] r by (simp add: same_module_def)
    then have "fst (setValue_controls w' cs n sc v) = None" using Cons by simp
    then show ?thesis using True r e by simp
  qed
qed

lemma getValue_registered:
  assumes "getSetting w name = Some s" and "s_val s = Some m"
  shows "getValue w name =
           Inr (case find (\<lambda>sc. sc \<notin> set (ignoredScopes w) \<and> m sc \<noteq> JUndefined)
                       [''local'', ''global'', ''get''] of
                  None \<Rightarrow> JNull
                | Some sc \<Rightarrow> m sc)"
  using assms by (simp add: getValue_def getValue_loop_find scopes_def)

lemma getValue_ok:
  "getSetting w name = Some s \<Longrightarrow> s_val s \<noteq> None \<Longrightarrow> \<exists>v. getValue w name = Inr v"
  using getValue_registered [of w name s] by auto

lemma call_callback_ok:
  "s_callback s \<noteq> NonFunction \<Longrightarrow> \<exists>v. getValue w name = Inr v \<Longrightarrow>
   fst (call_callback w s name) = None"
  by (cases "s_callback s") (auto simp: call_callback_def)

lemma setValue_ok:
  assumes "sc \<in> set scopes" and "getSetting_index (settings w) name = Some i"
    and "s_val (settings w ! i) = Some m"
    and "loadable_setting (document w) (settings w ! i)" and "\<not> loaded w"
  shows "fst (setValue w name sc v) = None"
proof -
  define s where "s = (settings w ! i)\<lparr>s_val := Some (m(sc := v))\<rparr>"
  define w1 where "w1 = w\<lparr>settings := (settings w)[i := s]\<rparr>"
  have i: "i < length (settings w)" using getSetting_index_Some [OF assms(2)] by simp
  obtain cs where cs: "s_controls s = Some cs"
    and ws: "list_all (\<lambda>c. ctl_type c = Some ''control'' \<longrightarrow> widget_ok (document w1) c) cs"
    using assms(4)
    by (cases "s_controls (settings w ! i)")
       (auto simp: loadable_setting_def s_def w1_def list_all_iff)
  have cb: "s_callback s \<noteq> NonFunction" using assms(4) by (simp add: loadable_setting_def s_def)
  obtain e2 w2 where r2: "setValue_controls w1 cs (s_name s) sc v = (e2, w2)"
    by (cases "setValue_controls w1 cs (s_name s) sc v")
  have e2: "e2 = None" using setValue_controls_ok [OF ws, of "s_name s" sc v] r2 by simp
  have f2: "same_module w1 w2" using setValue_controls_frame [of w1 cs "s_name s" sc v] r2 by simp
  have "getSetting_index (settings w1) name = Some i"
    using assms(2) i by (simp add: w1_def s_def getSetting_index_update)
  then have "getSetting w1 name = Some s" using i by (simp add: getSetting_def w1_def)
  then have "\<exists>x. getValue w1 name = Inr x" by (rule getValue_ok) (simp add: s_def)
  then have g: "\<exists>x. getValue w2 name = Inr x" using getValue_same_module [OF f2] by simp
  obtain e3 w3 where r3: "call_callback w2 s name = (e3, w3)" by (cases "call_callback w2 s name")
  have e3: "e3 = None" using call_callback_ok [OF cb g] r3 by simp
  have f3: "same_module w2 w3" using call_callback_frame [of w2 s name] r3 by simp
  have l: "\<not> loaded w3" using f2 f3 assms(5) by (simp add: same_module_def w1_def)
  show ?thesis
    using assms(1,2,3) cs r2 e2 r3 e3 l
    by (simp add: setValue_def s_def [symmetric] w1_def [symmetric] Let_def)
qed

lemma load_controls_ok:
  "list_all (\<lambda>c. ctl_type c = Some ''custom'' \<longrightarrow>
               ctl_callback c \<noteq> Absent \<and> ctl_callback c \<noteq> NonFunction) cs \<Longrightarrow>
   fst (load_controls uv cs m) = None"
proof (induction cs arbitrary: m)
  case Nil
  then show ?case by simp
next
  case (Cons c cs)
  have "\<exists>m'. load_control uv c m = Inr m'"
    using Cons.prems by (cases "ctl_callback c") (auto simp: load_control_def Let_def)
  then show ?case using Cons by auto
qed

lemma load_commit_ok:
  assumes "distinct (map s_name (settings w))" and "i < length (settings w)"
    and "set scs \<subseteq> set scopes" and "s_val (settings w ! i) \<noteq> None"
    and "loadable_setting (document w) (settings w ! i)" and "\<not> loaded w"
  shows "fst (load_commit w i scs) = None"
  using assms
proof (induction scs arbitrary: w)
  case Nil
  then show ?case by simp
next
  case (Cons sc scs)
  obtain m where m: "s_val (settings w ! i) = Some m" using Cons.prems(4) by blast
  show ?case
  proof (cases "m sc = JUndefined")
    case True
    then show ?thesis using m Cons by simp
  next
    case False
    have sc: "sc \<in> set scopes" using Cons.prems(3) by simp
    have idx: "getSetting_index (settings w) (s_name (settings w ! i)) = Some i"
      using getSetting_index_distinct [OF Cons.prems(1,2)] .
    obtain e w' where r: "setValue w (s_name (settings w ! i)) sc (m sc) = (e, w')"
      by (cases "setValue w (s_name (settings w ! i)) sc (m sc)")
    have e: "e = None" using setValue_ok [OF sc idx m Cons.prems(5,6), of "m sc"] r by simp
    have f: "same_module w w'" using setValue_same_value [OF sc idx m] r by simp
    then have "fst (load_commit w' i scs) = None"
      using Cons.IH [of w'] Cons.prems by (simp add: same_module_def)
    then show ?thesis using m False r e by simp
  qed
qed

lemma loadable_setting_val [simp]:
  "loadable_setting doc (s\<lparr>s_val := x\<rparr>) = loadable_setting doc s"
  by (simp add: loadable_setting_def)

lemma loadable_setting_seeded [simp]:
  "loadable_setting doc (seeded uv s) = loadable_setting doc s"
  by (simp add: seeded_def)

lemma load_setting_ok:
  assumes "loadable w" and "i < length (settings w)"
  shows "fst (load_setting w i) = None"
proof -
  have ls: "loadable_setting (document w) (settings w ! i)"
    using assms by (simp add: loadable_def list_all_length)
  then obtain cs where cs: "s_controls (settings w ! i) = Some cs"
    and cu: "list_all (\<lambda>c. ctl_type c = Some ''custom'' \<longrightarrow>
               ctl_callback c \<noteq> Absent \<and> ctl_callback c \<noteq> NonFunction) cs"
    by (cases "s_controls (settings w ! i)") (auto simp: loadable_setting_def list_all_iff)
  obtain e m where lc: "load_controls (urlVars w) cs ((\<lambda>k. JUndefined)(''local'' := s_defaultValue (settings w ! i))) = (e, m)"
    by (cases "load_controls (urlVars w) cs ((\<lambda>k. JUndefined)(''local'' := s_defaultValue (settings w ! i)))")
  have e: "e = None" using load_controls_ok [OF cu] lc by (metis fst_conv)
  define w1 where "w1 = w\<lparr>settings := (settings w)[i := (settings w ! i)\<lparr>s_val := Some m\<rparr>]\<rparr>"
  have res: "load_setting w i = load_commit w1 i scopes"
    using cs lc e by (simp add: load_setting_def Let_def w1_def)
  have names: "map s_name (settings w1) = map s_name (settings w)"
    using assms(2) by (simp add: w1_def map_update list_update_same_conv)
  have "fst (load_commit w1 i scopes) = None"
  proof (rule load_commit_ok)
    show "distinct (map s_name (settings w1))" using names assms(1) by (simp add: loadable_def)
    show "i < length (settings w1)" using assms(2) by (simp add: w1_def)
    show "set scopes \<subseteq> set scopes" by simp
    show "s_val (settings w1 ! i) \<noteq> None" using assms(2) by (simp add: w1_def)
    show "loadable_setting (document w1) (settings w1 ! i)" using assms(2) ls by (simp add: w1_def)
    show "\<not> loaded w1" using assms(1) by (simp add: loadable_def w1_def)
  qed
  then show ?thesis using res by simp
qed

lemma loadable_after_seed:
  assumes "loadable w" and "i < length (settings w)"
    and "same_module (w\<lparr>settings := (settings w)[i := seeded uv (settings w ! i)]\<rparr>) w1"
  shows "loadable w1"
proof -
  have st: "settings w1 = (settings w)[i := seeded uv (settings w ! i)]"
    and d: "document w1 = document w" and l: "loaded w1 = loaded w"
    using assms(3) by (simp_all add: same_module_def)
  have names: "map s_name (settings w1) = map s_name (settings w)"
    using assms(2) by (simp add: st map_update list_update_same_conv)
  have "list_all (loadable_setting (document w)) ((settings w)[i := seeded uv (settings w ! i)])"
    using assms(1,2) by (auto simp: loadable_def list_all_length nth_list_update)
  then show ?thesis using assms(1) names d l st by (simp add: loadable_def)
qed

lemma load_settings_ok:
  assumes "loadable w" and "\<forall>i \<in> set is. i < length (settings w)"
  shows "fst (load_settings w is) = None"
  using assms
proof (induction "is" arbitrary: w)
  case Nil
  then show ?case by simp
next
  case (Cons i "is")
  have i: "i < length (settings w)" using Cons.prems(2) by simp
  obtain e w1 where r: "load_setting w i = (e, w1)" by (cases "load_setting w i")
  have e: "e = None" using load_setting_ok [OF Cons.prems(1) i] r by simp
  have d: "distinct (map s_name (settings w))" using Cons.prems(1) by (simp add: loadable_def)
  have f: "same_module (w\<lparr>settings := (settings w)[i := seeded (urlVars w) (settings w ! i)]\<rparr>) w1"
    using load_setting_effect [of w i] r e d i by simp
  have l1: "loadable w1" using loadable_after_seed [OF Cons.prems(1) i f] .
  have "length (settings w1) = length (settings w)" using f by (simp add: same_module_def)
  then have "fst (load_settings w1 is) = None" using Cons.IH [OF l1] Cons.prems(2) by simp
  then show ?case using r e by simp
qed

lemma getSetting_present:
  assumes "s \<in> set (settings w)"
  shows "\<exists>s' \<in> set (settings w). getSetting w (s_name s) = Some s'"
proof -
  have "getSetting_index (settings w) (s_name s) \<noteq> None"
    using assms by (auto simp: getSetting_index_None)
  then obtain k where k: "getSetting_index (settings w) (s_name s) = Some k" by blast
  then have "k < length (settings w)" using getSetting_index_Some by blast
  then show ?thesis using k by (simp add: getSetting_def)
qed

lemma load_callbacks_ok:
  assumes "\<forall>s \<in> set (settings w). s_val s \<noteq> None" and "set ss \<subseteq> set (settings w)"
    and "\<forall>s \<in> set ss. s_callback s \<noteq> NonFunction"
  shows "fst (load_callbacks w ss) = None"
  using assms
proof (induction ss arbitrary: w)
  case Nil
  then show ?case by simp
next
  case (Cons s ss)
  have "s \<in> set (settings w)" using Cons.prems(2) by simp
  then obtain s' where "s' \<in> set (settings w)" and "getSetting w (s_name s) = Some s'"
    using getSetting_present by blast
  then have g: "\<exists>v. getValue w (s_name s) = Inr v"
    using getValue_ok [of w "s_name s" s'] Cons.prems(1) by blast
  obtain e w' where r: "call_callback w s (s_name s) = (e, w')"
    by (cases "call_callback w s (s_name s)")
  have e: "e = None" using call_callback_ok [OF _ g, of s] Cons.prems(3) r by simp
  have "settings w' = settings w"
    using call_callback_frame [of w s "s_name s"] r by (simp add: same_module_def)
  then have "fst (load_callbacks w' ss) = None" using Cons.IH [of w'] Cons.prems by simp
  then show ?case using r e by simp
qed

lemma saveToCookie_ok:
  "\<forall>s \<in> set (settings w). s_val s \<noteq> None \<Longrightarrow> fst (saveToCookie w) = None"
  using exportSettings_loop_ok [of "settings w" "JStr ''local''" Map.empty]
  by (auto simp: saveToCookie_def exportSettings_def)

lemma seeded_val [simp]: "s_val (seeded uv s) \<noteq> None"
  by (simp add: seeded_def)

lemma loadSettings_ok:
  assumes "loadable w" and "collected_errors w = []"
  shows "fst (loadSettings w) = None"
proof -
  have c: "checkSettingsArray w = (None, w)"
    using assms(2) checkSettingsArray_throws_iff [of w]
    by (simp add: checkSettingsArray_eq prod_eq_iff)
  obtain e2 w2 where r2: "load_settings w [0..<length (settings w)] = (e2, w2)"
    by (cases "load_settings w [0..<length (settings w)]")
  have e2: "e2 = None" using load_settings_ok [OF assms(1), of "[0..<length (settings w)]"] r2 by simp
  have d: "distinct (map s_name (settings w))" using assms(1) by (simp add: loadable_def)
  have "same_module
          (w\<lparr>settings := fold (\<lambda>i xs. xs[i := seeded (urlVars w) (xs ! i)])
                             [0..<length (settings w)] (settings w)\<rparr>) w2"
    using load_settings_effect [of w "[0..<length (settings w)]"] r2 e2 d by simp
  then have st2: "settings w2 = map (seeded (urlVars w)) (settings w)"
    by (simp add: fold_update_map same_module_def)
  have v2: "\<forall>s \<in> set (settings w2). s_val s \<noteq> None" by (auto simp: st2 seeded_def)
  have cb: "\<forall>s \<in> set (settings w2). s_callback s \<noteq> NonFunction"
    using assms(1) by (auto simp: st2 loadable_def list_all_iff loadable_setting_def seeded_def)
  obtain e3 w3 where r3: "load_callbacks w2 (settings w2) = (e3, w3)"
    by (cases "load_callbacks w2 (settings w2)")
  have e3: "e3 = None" using load_callbacks_ok [OF v2 _ cb] r3 by simp
  have "settings w3 = settings w2"
    using load_callbacks_frame [of w2 "settings w2"] r3 by (simp add: same_module_def)
  then have "fst (saveToCookie (w3\<lparr>loaded := True\<rparr>)) = None"
    using v2 by (intro saveToCookie_ok) simp
  then show ?thesis using c r2 e2 r3 e3 by (simp add: loadSettings_def)
qed

lemma widget_ok_checkbox_page [simp]: "widget_ok checkbox_page c"
  by (simp add: widget_ok_def checkbox_page_def)

lemma loadable_initial: "loadable (initial_world uv checkbox_page)"
  by (simp add: loadable_def initial_world_def initial_settings_def entry_def
      loadable_setting_def get_binding_def control_binding_def custom_binding_def)

lemma local_from_default_initial: "list_all local_from_default initial_settings"
  by (simp add: initial_settings_def entry_def local_from_default_def
      get_binding_def control_binding_def custom_binding_def)

lemma distinct_initial: "distinct (map s_name initial_settings)"
  by (simp add: initial_settings_def entry_def)

lemma loadSettings_initial_ok: "fst (loadSettings (initial_world uv checkbox_page)) = None"
  using loadSettings_ok [OF loadable_initial collected_errors_initial] .

lemma loadSettings_initial_settings:
  "settings (snd (loadSettings (initial_world uv checkbox_page))) = map (seeded uv) initial_settings"
  "ignoredScopes (snd (loadSettings (initial_world uv checkbox_page))) = []"
  using loadSettings_effect [OF loadSettings_initial_ok, of uv] distinct_initial
  by (simp_all add: initial_world_def)

lemma load_control_get:
  assumes "ctl_type c = Some ''get''"
  shows "load_control uv c m =
           Inr (case uv (field_str (ctl_name c)) of
                  None \<Rightarrow> m
                | Some t \<Rightarrow>
                    if t = [] \<or> t = ''false'' then m
                    else m(field_str (ctl_scope c) := (if t = ''true'' then JBool True else JStr t)))"
  using assms by (auto simp: load_control_def coerce_param_def Let_def split: option.splits)

lemma getSetting_index_seeded:
  "getSetting_index (map (seeded uv) ss) name = getSetting_index ss name"
  by (induction ss) simp_all

lemma getValue_loaded_initial:
  assumes "getSetting_index initial_settings name = Some i"
  shows "getValue ((snd (loadSettings (initial_world uv checkbox_page)))\<lparr>ignoredScopes := ign\<rparr>) name
           = getValue_loop ign (Some (seeded uv (initial_settings ! i))) scopes"
proof -
  have i: "i < length initial_settings" using getSetting_index_Some [OF assms] by simp
  have "getSetting_index (map (seeded uv) initial_settings) name = Some i"
    using assms by (simp add: getSetting_index_seeded)
  then show ?thesis using i
    by (simp add: getValue_def getSetting_def loadSettings_initial_settings)
qed

text \<open>
  C2, at the query \<open>showLineNumbers=false\<close>. The step of \<open>loadSettings\<close> for the binding
  \<open>{scope: "get", type: "get", name: "showLineNumbers"}\<close> turns the string \<open>false\<close> into the
  boolean, which the test \<open>if(paramValue)\<close> then drops: the values are left as they were.
  After \<open>loadSettings\<close> on the table of the source nothing is recorded under \<open>get\<close> for the
  setting: with \<open>local\<close> ignored its value is \<open>null\<close>, not \<open>false\<close>.
\<close>

theorem false_parameter_not_recorded:
  "load_control (Map.empty(''showLineNumbers'' \<mapsto> ''false'')) (get_binding ''get'' ''showLineNumbers'')
       (no_values(''local'' := JBool True))
     = Inr (no_values(''local'' := JBool True))
   \<and> fst (loadSettings query_false) = None
   \<and> getValue (snd (setIgnoreScope (snd (loadSettings query_false)) ''local'' (JBool True)))
        (Some ''showLineNumbers'') = Inr JNull"
proof -
  have a: "load_control (Map.empty(''showLineNumbers'' \<mapsto> ''false'')) (get_binding ''get'' ''showLineNumbers'')
       (no_values(''local'' := JBool True))
     = Inr (no_values(''local'' := JBool True))"
    by (simp add: load_control_def get_binding_def coerce_param_def)
  have b: "fst (loadSettings query_false) = None"
    unfolding query_false_def by (rule loadSettings_initial_ok)
  have idx: "getSetting_index initial_settings (Some ''showLineNumbers'') = Some 7"
    by (simp add: initial_settings_def entry_def)
  have ig: "snd (setIgnoreScope (snd (loadSettings query_false)) ''local'' (JBool True))
              = (snd (loadSettings query_false))\<lparr>ignoredScopes := [''local'']\<rparr>"
    by (simp add: setIgnoreScope_def scopes_def query_false_def loadSettings_initial_settings)
  have c: "getValue (snd (setIgnoreScope (snd (loadSettings query_false)) ''local'' (JBool True)))
        (Some ''showLineNumbers'') = Inr JNull"
    unfolding ig unfolding query_false_def getValue_loaded_initial [OF idx]
    by (simp add: initial_settings_def entry_def seeded_def get_binding_def control_binding_def
        load_control_def coerce_param_def no_values_def scopes_def)
  show ?thesis using a b c by simp
qed

lemma saveToCookie_needs_values:
  assumes "fst (saveToCookie w) = None"
  shows "\<forall>s \<in> set (settings w). s_val s \<noteq> None"
proof -
  have "\<exists>out. exportSettings_loop (settings w) (JStr ''local'') Map.empty = Inr out"
    using assms by (auto simp: saveToCookie_def exportSettings_def split: sum.splits)
  then show ?thesis using exportSettings_loop_ok by blast
qed

lemma loadSettings_values:
  assumes "loadSettings w = (None, w')"
  shows "\<forall>s \<in> set (settings w'). s_val s \<noteq> None"
proof -
  obtain e1 w1 where r1: "checkSettingsArray w = (e1, w1)" by (cases "checkSettingsArray w")
  have e1: "e1 = None" using assms r1 by (cases e1) (auto simp: loadSettings_def)
  obtain e2 w2 where r2: "load_settings w1 [0..<length (settings w1)] = (e2, w2)"
    by (cases "load_settings w1 [0..<length (settings w1)]")
  have e2: "e2 = None" using assms r1 e1 r2 by (cases e2) (auto simp: loadSettings_def)
  obtain e3 w3 where r3: "load_callbacks w2 (settings w2) = (e3, w3)"
    by (cases "load_callbacks w2 (settings w2)")
  have e3: "e3 = None" using assms r1 e1 r2 e2 r3 by (cases e3) (auto simp: loadSettings_def)
  have res: "saveToCookie (w3\<lparr>loaded := True\<rparr>) = (None, w')"
    using assms r1 e1 r2 e2 r3 e3 by (simp add: loadSettings_def)
  then have "\<forall>s \<in> set (settings (w3\<lparr>loaded := True\<rparr>)). s_val s \<noteq> None"
    using saveToCookie_needs_values [of "w3\<lparr>loaded := True\<rparr>"] by simp
  moreover have "settings w' = settings (w3\<lparr>loaded := True\<rparr>)"
    using saveToCookie_frame [of "w3\<lparr>loaded := True\<rparr>"] res by (simp add: same_module_def)
  ultimately show ?thesis by simp
qed

lemma first_defined_not_undefined:
  "(case find (\<lambda>sc. sc \<notin> set ign \<and> m sc \<noteq> JUndefined) scs of
      None \<Rightarrow> JNull | Some sc \<Rightarrow> m sc) \<noteq> JUndefined"
proof (cases "find (\<lambda>sc. sc \<notin> set ign \<and> m sc \<noteq> JUndefined) scs")
  case None
  then show ?thesis by simp
next
  case (Some sc)
  then have "m sc \<noteq> JUndefined" by (auto simp: find_Some_iff)
  then show ?thesis using Some by simp
qed

lemma load_control_local:
  assumes "ctl_type c = Some ''get'' \<or> ctl_type c = Some ''custom'' \<longrightarrow> ctl_scope c \<noteq> Some ''local''"
    and "load_control uv c m = Inr m'"
  shows "m' ''local'' = m ''local''"
proof -
  have "ctl_type c = Some ''get'' \<or> ctl_type c = Some ''custom'' \<Longrightarrow> field_str (ctl_scope c) \<noteq> ''local''"
    using assms(1) by (cases "ctl_scope c") auto
  then show ?thesis using assms(2)
    by (auto simp: load_control_def Let_def split: if_splits jsfun.splits)
qed

lemma load_controls_local:
  "list_all (\<lambda>c. ctl_type c = Some ''get'' \<or> ctl_type c = Some ''custom'' \<longrightarrow>
                 ctl_scope c \<noteq> Some ''local'') cs \<Longrightarrow>
   snd (load_controls uv cs m) ''local'' = m ''local''"
proof (induction cs arbitrary: m)
  case Nil
  then show ?case by simp
next
  case (Cons c cs)
  show ?case
  proof (cases "load_control uv c m")
    case (Inl e)
    then show ?thesis by simp
  next
    case (Inr m')
    have "m' ''local'' = m ''local''" using load_control_local [OF _ Inr] Cons.prems by simp
    then show ?thesis using Inr Cons by simp
  qed
qed

lemma seeded_local:
  assumes "local_from_default s"
  shows "\<exists>m. s_val (seeded uv s) = Some m \<and> m ''local'' = s_defaultValue (seeded uv s)
             \<and> m ''local'' \<noteq> JUndefined"
proof (cases "s_controls s")
  case None
  then show ?thesis using assms by (simp add: seeded_def local_from_default_def no_values_def)
next
  case (Some cs)
  then have "snd (load_controls uv cs (no_values(''local'' := s_defaultValue s))) ''local''
               = s_defaultValue s"
    using assms load_controls_local [of cs uv "no_values(''local'' := s_defaultValue s)"]
    by (simp add: local_from_default_def)
  then show ?thesis using Some assms by (simp add: seeded_def local_from_default_def)
qed

lemma setValue_settings:
  "settings (snd (setValue w n sc v)) = settings w \<or>
   (\<exists>i m. i < length (settings w) \<and> s_val (settings w ! i) = Some m
          \<and> settings (snd (setValue w n sc v))
              = (settings w)[i := (settings w ! i)\<lparr>s_val := Some (m(sc := v))\<rparr>])"
proof (cases "sc \<in> set scopes")
  case False
  then show ?thesis using setValue_failed_early [of sc w n v] by simp
next
  case True
  show ?thesis
  proof (cases "getSetting_index (settings w) n")
    case None
    then show ?thesis using setValue_failed_early [of sc w n v] by simp
  next
    case (Some i)
    have i: "i < length (settings w)" using getSetting_index_Some [OF Some] by simp
    show ?thesis
    proof (cases "s_val (settings w ! i)")
      case None
      then show ?thesis using Some setValue_failed_early [of sc w n v] by simp
    next
      case m: (Some m)
      have "settings (snd (setValue w n sc v))
              = (settings w)[i := (settings w ! i)\<lparr>s_val := Some (m(sc := v))\<rparr>]"
        using setValue_state [OF True Some m, of v] by (simp add: same_module_def)
      then show ?thesis using i m by blast
    qed
  qed
qed

lemma local_defined_setValue:
  assumes "local_defined u" and "sc \<noteq> ''local'' \<or> v \<noteq> JUndefined"
  shows "local_defined (snd (setValue u n sc v))"
proof -
  from setValue_settings [of u n sc v] show ?thesis
  proof
    assume "settings (snd (setValue u n sc v)) = settings u"
    then show ?thesis using assms(1) by (simp add: local_defined_def)
  next
    assume "\<exists>i m. i < length (settings u) \<and> s_val (settings u ! i) = Some m
          \<and> settings (snd (setValue u n sc v))
              = (settings u)[i := (settings u ! i)\<lparr>s_val := Some (m(sc := v))\<rparr>]"
    then obtain i m where i: "i < length (settings u)" and m: "s_val (settings u ! i) = Some m"
      and st: "settings (snd (setValue u n sc v))
              = (settings u)[i := (settings u ! i)\<lparr>s_val := Some (m(sc := v))\<rparr>]"
      by blast
    have "m ''local'' \<noteq> JUndefined"
      using assms(1) i m by (auto simp: local_defined_def list_all_length)
    then have new: "(m(sc := v)) ''local'' \<noteq> JUndefined" using assms(2) by auto
    have "case s_val (((settings u)[i := (settings u ! i)\<lparr>s_val := Some (m(sc := v))\<rparr>]) ! k) of
            None \<Rightarrow> False | Some m \<Rightarrow> m ''local'' \<noteq> JUndefined"
      if k: "k < length (settings u)" for k
    proof (cases "k = i")
      case True
      then show ?thesis using i new by simp
    next
      case False
      then show ?thesis using assms(1) k by (simp add: local_defined_def list_all_length)
    qed
    then show ?thesis unfolding local_defined_def st list_all_length by simp
  qed
qed

lemma local_defined_setIgnoreScope:
  "local_defined u \<Longrightarrow> local_defined (snd (setIgnoreScope u sc ig))"
  by (simp add: local_defined_def setIgnoreScope_def)

lemma getValue_local:
  assumes "local_defined u" and "getSetting u name = Some s"
    and "''local'' \<notin> set (ignoredScopes u)"
  shows "\<exists>m. s_val s = Some m \<and> m ''local'' \<noteq> JUndefined \<and> getValue u name = Inr (m ''local'')"
proof -
  have "s \<in> set (settings u)"
    using assms(2) getSetting_index_Some by (auto simp: getSetting_def split: option.splits)
  then obtain m where m: "s_val s = Some m" and d: "m ''local'' \<noteq> JUndefined"
    using assms(1) by (auto simp: local_defined_def list_all_iff split: option.splits)
  have "getValue u name = Inr (m ''local'')"
    using assms(2,3) m d by (simp add: getValue_def scopes_def)
  then show ?thesis using m d by blast
qed

text \<open>
  C9. For a table with names that differ, defaults that are not \<open>undefined\<close> and no query
  or computed binding for scope \<open>local\<close> (the table of the source is one): after
  \<open>loadSettings\<close> every setting holds its default under \<open>local\<close>, a defined value. That every
  setting has a defined value under \<open>local\<close> is kept by \<open>setIgnoreScope\<close> and by every
  \<open>setValue\<close> that does not write \<open>undefined\<close> to \<open>local\<close>; and while it holds and \<open>local\<close> is
  not ignored, \<open>getValue\<close> returns the value under \<open>local\<close>, whatever \<open>global\<close> and \<open>get\<close> hold.
\<close>

theorem local_scope_always_wins:
  assumes "loadSettings w = (None, w')" and "distinct (map s_name (settings w))"
    and "list_all local_from_default (settings w)"
  shows "list_all (\<lambda>s. \<exists>m. s_val s = Some m \<and> m ''local'' = s_defaultValue s
                        \<and> m ''local'' \<noteq> JUndefined) (settings w')
         \<and> local_defined w'
         \<and> (local_defined u \<longrightarrow> local_defined (snd (setIgnoreScope u sc ig)))
         \<and> (local_defined u \<and> (sc \<noteq> ''local'' \<or> v \<noteq> JUndefined) \<longrightarrow>
              local_defined (snd (setValue u n sc v)))
         \<and> (local_defined u \<and> getSetting u name = Some s \<and> ''local'' \<notin> set (ignoredScopes u) \<longrightarrow>
              (\<exists>m. s_val s = Some m \<and> m ''local'' \<noteq> JUndefined
                    \<and> getValue u name = Inr (m ''local'')))"
proof -
  have st: "settings w' = map (seeded (urlVars w)) (settings w)"
    using loadSettings_effect [of w] assms(1,2) by simp
  have a: "list_all (\<lambda>s. \<exists>m. s_val s = Some m \<and> m ''local'' = s_defaultValue s
                        \<and> m ''local'' \<noteq> JUndefined) (settings w')"
    unfolding st using assms(3) seeded_local [of _ "urlVars w"]
    by (auto simp: list_all_iff)
  then have b: "local_defined w'"
    by (auto simp: local_defined_def list_all_iff)
  show ?thesis
    using a b local_defined_setIgnoreScope [of u sc ig] local_defined_setValue [of u sc v n]
      getValue_local [of u name s]
    by blast
qed

lemma getSetting_loaded_initial:
  assumes "getSetting_index initial_settings name = Some i"
  shows "getSetting (snd (loadSettings (initial_world uv checkbox_page))) name
           = Some (seeded uv (initial_settings ! i))"
proof -
  have i: "i < length initial_settings" using getSetting_index_Some [OF assms] by simp
  then show ?thesis using assms
    by (simp add: getSetting_def loadSettings_initial_settings getSetting_index_seeded)
qed

theorem local_scope_always_wins_witness:
  "loadSettings query_lang = (None, snd (loadSettings query_lang))
   \<and> distinct (map s_name (settings query_lang))
   \<and> list_all local_from_default (settings query_lang)
   \<and> ''local'' \<notin> set (ignoredScopes (snd (loadSettings query_lang)))
   \<and> getValue (snd (setIgnoreScope (snd (loadSettings query_lang)) ''local'' (JBool True)))
        (Some ''language'') = Inr (JStr ''de'')
   \<and> getValue (snd (loadSettings query_lang)) (Some ''language'') = Inr (JStr ''en'')"
proof -
  let ?uv = "Map.empty(''lang'' \<mapsto> ''de'')"
  let ?w' = "snd (loadSettings query_lang)"
  have a: "loadSettings query_lang = (None, ?w')"
    using loadSettings_initial_ok [of ?uv] by (simp add: query_lang_def prod_eq_iff)
  have d: "distinct (map s_name (settings query_lang))"
    using distinct_initial by (simp add: query_lang_def initial_world_def)
  have l: "list_all local_from_default (settings query_lang)"
    using local_from_default_initial by (simp add: query_lang_def initial_world_def)
  have n: "ignoredScopes ?w' = []"
    by (simp add: query_lang_def loadSettings_initial_settings)
  then have ni: "''local'' \<notin> set (ignoredScopes ?w')" by simp
  have idx: "getSetting_index initial_settings (Some ''language'') = Some 3"
    by (simp add: initial_settings_def entry_def)
  have b: "getSetting ?w' (Some ''language'') = Some (seeded ?uv (initial_settings ! 3))"
    unfolding query_lang_def by (rule getSetting_loaded_initial [OF idx])
  have v: "s_val (seeded ?uv (initial_settings ! 3))
             = Some (no_values(''local'' := JStr ''en'', ''get'' := JStr ''de''))"
    by (simp add: initial_settings_def entry_def seeded_def get_binding_def
        load_control_def coerce_param_def)
  note T = local_scope_always_wins [OF a d l, where u = ?w' and name = "Some ''language''"
      and s = "seeded ?uv (initial_settings ! 3)"]
  have ld: "local_defined ?w'" using T by blast
  then obtain m where m: "s_val (seeded ?uv (initial_settings ! 3)) = Some m"
    and g: "getValue ?w' (Some ''language'') = Inr (m ''local'')"
    using T b ni by blast
  have "m = no_values(''local'' := JStr ''en'', ''get'' := JStr ''de'')" using m v by simp
  then have en: "getValue ?w' (Some ''language'') = Inr (JStr ''en'')" using g by simp
  have ig: "snd (setIgnoreScope ?w' ''local'' (JBool True)) = ?w'\<lparr>ignoredScopes := [''local'']\<rparr>"
    by (simp add: setIgnoreScope_def scopes_def n)
  have de: "getValue (snd (setIgnoreScope ?w' ''local'' (JBool True))) (Some ''language'')
              = Inr (JStr ''de'')"
    unfolding ig unfolding query_lang_def getValue_loaded_initial [OF idx]
    by (simp add: initial_settings_def entry_def seeded_def get_binding_def
        load_control_def coerce_param_def no_values_def scopes_def)
  show ?thesis using a d l ni de en by simp
qed

subsection \<open>getValue after loadSettings\<close>

lemma loadSettings_local_defined:
  assumes "fst (loadSettings w) = None" and "distinct (map s_name (settings w))"
    and "list_all local_from_default (settings w)"
  shows "local_defined (snd (loadSettings w))"
proof -
  have st: "settings (snd (loadSettings w)) = map (seeded (urlVars w)) (settings w)"
    using loadSettings_effect [OF assms(1,2)] by simp
  have "case s_val (seeded (urlVars w) x) of None \<Rightarrow> False | Some m \<Rightarrow> m ''local'' \<noteq> JUndefined"
    if "x \<in> set (settings w)" for x
  proof -
    have "local_from_default x" using assms(3) that by (simp add: list_all_iff)
    then obtain m where "s_val (seeded (urlVars w) x) = Some m" and "m ''local'' \<noteq> JUndefined"
      using seeded_local [of x "urlVars w"] by blast
    then show ?thesis by simp
  qed
  then show ?thesis unfolding local_defined_def st by (simp add: list_all_iff)
qed

lemma getValue_some_scope:
  assumes "getSetting w name = Some s" and "s_val s = Some m"
  shows "getValue w name \<noteq> Inr JUndefined
         \<and> ((\<forall>sc \<in> set scopes. sc \<in> set (ignoredScopes w) \<or> m sc = JUndefined) \<longrightarrow>
              getValue w name = Inr JNull)
         \<and> ((\<exists>sc \<in> set scopes. sc \<notin> set (ignoredScopes w) \<and> m sc \<noteq> JUndefined) \<longrightarrow>
              (\<exists>sc \<in> set scopes. sc \<notin> set (ignoredScopes w) \<and> m sc \<noteq> JUndefined
                 \<and> getValue w name = Inr (m sc)))"
proof -
  let ?P = "\<lambda>sc. sc \<notin> set (ignoredScopes w) \<and> m sc \<noteq> JUndefined"
  have g: "getValue w name = Inr (case find ?P scopes of None \<Rightarrow> JNull | Some sc \<Rightarrow> m sc)"
    using assms by (simp add: getValue_def getValue_loop_find)
  show ?thesis
  proof (cases "find ?P scopes")
    case None
    then have "\<forall>sc \<in> set scopes. \<not> ?P sc" by (simp add: find_None_iff)
    then show ?thesis using g None by auto
  next
    case (Some sc)
    then have "sc \<in> set scopes \<and> ?P sc" by (auto simp: find_Some_iff)
    then show ?thesis using g Some by auto
  qed
qed

text \<open>
  C8, as the code has it. After \<open>loadSettings\<close> has returned, every registered setting has
  its values object, and for any set of ignored scopes \<open>getValue\<close> returns without an
  exception and never returns \<open>undefined\<close>. When no scope is both not ignored and defined
  it returns \<open>null\<close>. Otherwise it returns the value recorded for a scope that is not ignored
  and defined; that value can itself be \<open>null\<close>, as a default of \<open>null\<close> stored under \<open>local\<close> is.
\<close>

theorem getValue_after_loadSettings:
  assumes "loadSettings w = (None, w')" and "getSetting w' name = Some s"
  shows "\<exists>m. s_val s = Some m
           \<and> getValue (w'\<lparr>ignoredScopes := ign\<rparr>) name \<noteq> Inr JUndefined
           \<and> ((\<forall>sc \<in> set scopes. sc \<in> set ign \<or> m sc = JUndefined) \<longrightarrow>
                getValue (w'\<lparr>ignoredScopes := ign\<rparr>) name = Inr JNull)
           \<and> ((\<exists>sc \<in> set scopes. sc \<notin> set ign \<and> m sc \<noteq> JUndefined) \<longrightarrow>
                (\<exists>sc \<in> set scopes. sc \<notin> set ign \<and> m sc \<noteq> JUndefined
                   \<and> getValue (w'\<lparr>ignoredScopes := ign\<rparr>) name = Inr (m sc)))"
proof -
  have "s \<in> set (settings w')"
    using assms(2) getSetting_index_Some
    by (auto simp: getSetting_def split: option.splits)
  then obtain m where m: "s_val s = Some m" using loadSettings_values [OF assms(1)] by auto
  have g: "getSetting (w'\<lparr>ignoredScopes := ign\<rparr>) name = Some s"
    using assms(2) by (simp add: getSetting_def split: option.splits)
  have ig: "ignoredScopes (w'\<lparr>ignoredScopes := ign\<rparr>) = ign" by simp
  show ?thesis using getValue_some_scope [OF g m] m unfolding ig by blast
qed

theorem getValue_after_loadSettings_witness:
  "loadSettings query_color = (None, snd (loadSettings query_color))
   \<and> getSetting (snd (loadSettings query_color)) (Some ''userColor'')
       = Some (seeded (Map.empty(''userColor'' \<mapsto> ''red'')) (initial_settings ! 2))
   \<and> getValue ((snd (loadSettings query_color))\<lparr>ignoredScopes := [''local'', ''global'']\<rparr>)
        (Some ''userColor'') = Inr (JStr ''red'')"
proof -
  let ?s = "seeded (Map.empty(''userColor'' \<mapsto> ''red'')) (initial_settings ! 2)"
  let ?u = "(snd (loadSettings query_color))\<lparr>ignoredScopes := [''local'', ''global'']\<rparr>"
  have a: "loadSettings query_color = (None, snd (loadSettings query_color))"
    using loadSettings_initial_ok [of "Map.empty(''userColor'' \<mapsto> ''red'')"]
    by (simp add: query_color_def prod_eq_iff)
  have idx: "getSetting_index initial_settings (Some ''userColor'') = Some 2"
    by (simp add: initial_settings_def entry_def)
  have b: "getSetting (snd (loadSettings query_color)) (Some ''userColor'') = Some ?s"
    unfolding query_color_def by (rule getSetting_loaded_initial [OF idx])
  have v: "s_val ?s = Some (no_values(''local'' := JNull, ''get'' := JStr ''red''))"
    by (simp add: initial_settings_def entry_def seeded_def get_binding_def
        load_control_def coerce_param_def)
  obtain m where m: "s_val ?s = Some m"
    and some: "(\<exists>sc \<in> set scopes. sc \<notin> set [''local'', ''global''] \<and> m sc \<noteq> JUndefined) \<longrightarrow>
                (\<exists>sc \<in> set scopes. sc \<notin> set [''local'', ''global''] \<and> m sc \<noteq> JUndefined
                   \<and> getValue ?u (Some ''userColor'') = Inr (m sc))"
    using getValue_after_loadSettings [OF a b, of "[''local'', ''global'']"] by blast
  have meq: "m = no_values(''local'' := JNull, ''get'' := JStr ''red'')" using m v by simp
  have "''get'' \<in> set scopes \<and> ''get'' \<notin> set [''local'', ''global''] \<and> m ''get'' \<noteq> JUndefined"
    by (simp add: meq scopes_def)
  then obtain sc where sc: "sc \<in> set scopes" "sc \<notin> set [''local'', ''global'']"
    and r: "getValue ?u (Some ''userColor'') = Inr (m sc)"
    using some by blast
  have "sc = ''get''" using sc by (simp add: scopes_def)
  then have "getValue ?u (Some ''userColor'') = Inr (JStr ''red'')" using r meq by simp
  then show ?thesis using a b by simp
qed

text \<open>
  The claim C8 as stated fails on the table of the source at the query \<open>userColor=red\<close>.
  After \<open>loadSettings\<close> nothing is ignored and every setting has a defined value under
  \<open>local\<close>; for \<open>userId\<close> it is the default \<open>null\<close>, and \<open>getValue\<close> returns \<open>null\<close>. For
  \<open>userColor\<close> scope \<open>get\<close> holds \<open>red\<close> (the value once \<open>local\<close> is ignored), and \<open>getValue\<close>
  returns \<open>null\<close> as well.
\<close>

theorem null_default_counterexample:
  "fst (loadSettings query_color) = None
   \<and> ignoredScopes (snd (loadSettings query_color)) = []
   \<and> local_defined (snd (loadSettings query_color))
   \<and> getValue (snd (loadSettings query_color)) (Some ''userId'') = Inr JNull
   \<and> getValue (snd (setIgnoreScope (snd (loadSettings query_color)) ''local'' (JBool True)))
        (Some ''userColor'') = Inr (JStr ''red'')
   \<and> getValue (snd (loadSettings query_color)) (Some ''userColor'') = Inr JNull"
proof -
  have b: "fst (loadSettings query_color) = None"
    unfolding query_color_def by (rule loadSettings_initial_ok)
  have n: "ignoredScopes (snd (loadSettings query_color)) = []"
    by (simp add: query_color_def loadSettings_initial_settings)
  have ld: "local_defined (snd (loadSettings query_color))"
    using loadSettings_local_defined [OF b] distinct_initial local_from_default_initial
    by (simp add: query_color_def initial_world_def)
  have idx: "getSetting_index initial_settings (Some ''userColor'') = Some 2"
    by (simp add: initial_settings_def entry_def)
  have idy: "getSetting_index initial_settings (Some ''userId'') = Some 1"
    by (simp add: initial_settings_def entry_def)
  have ig: "snd (setIgnoreScope (snd (loadSettings query_color)) ''local'' (JBool True))
              = (snd (loadSettings query_color))\<lparr>ignoredScopes := [''local'']\<rparr>"
    by (simp add: setIgnoreScope_def scopes_def n)
  have c: "getValue (snd (setIgnoreScope (snd (loadSettings query_color)) ''local'' (JBool True)))
        (Some ''userColor'') = Inr (JStr ''red'')"
    unfolding ig unfolding query_color_def getValue_loaded_initial [OF idx]
    by (simp add: initial_settings_def entry_def seeded_def get_binding_def
        load_control_def coerce_param_def no_values_def scopes_def)
  have same: "snd (loadSettings query_color) = (snd (loadSettings query_color))\<lparr>ignoredScopes := []\<rparr>"
    using n by simp
  have "getValue ((snd (loadSettings query_color))\<lparr>ignoredScopes := []\<rparr>) (Some ''userColor'') = Inr JNull"
    unfolding query_color_def getValue_loaded_initial [OF idx]
    by (simp add: initial_settings_def entry_def seeded_def get_binding_def
        load_control_def coerce_param_def no_values_def scopes_def)
  then have d: "getValue (snd (loadSettings query_color)) (Some ''userColor'') = Inr JNull"
    using same by simp
  have "getValue ((snd (loadSettings query_color))\<lparr>ignoredScopes := []\<rparr>) (Some ''userId'') = Inr JNull"
    unfolding query_color_def getValue_loaded_initial [OF idy]
    by (simp add: initial_settings_def entry_def seeded_def no_values_def scopes_def)
  then have e: "getValue (snd (loadSettings query_color)) (Some ''userId'') = Inr JNull"
    using same by simp
  show ?thesis using b n ld c d e by simp
qed

subsection \<open>setValue with the value undefined\<close>

lemma setValue_ok_loaded:
  assumes "sc \<in> set scopes" and "getSetting_index (settings w) name = Some i"
    and "s_val (settings w ! i) = Some m"
    and "loadable_setting (document w) (settings w ! i)"
    and "\<forall>s \<in> set (settings w). s_val s \<noteq> None"
  shows "fst (setValue w name sc v) = None"
proof -
  define s where "s = (settings w ! i)\<lparr>s_val := Some (m(sc := v))\<rparr>"
  define w1 where "w1 = w\<lparr>settings := (settings w)[i := s]\<rparr>"
  have i: "i < length (settings w)" using getSetting_index_Some [OF assms(2)] by simp
  obtain cs where cs: "s_controls s = Some cs"
    and ws: "list_all (\<lambda>c. ctl_type c = Some ''control'' \<longrightarrow> widget_ok (document w1) c) cs"
    using assms(4)
    by (cases "s_controls (settings w ! i)")
       (auto simp: loadable_setting_def s_def w1_def list_all_iff)
  have cb: "s_callback s \<noteq> NonFunction" using assms(4) by (simp add: loadable_setting_def s_def)
  obtain e2 w2 where r2: "setValue_controls w1 cs (s_name s) sc v = (e2, w2)"
    by (cases "setValue_controls w1 cs (s_name s) sc v")
  have e2: "e2 = None" using setValue_controls_ok [OF ws, of "s_name s" sc v] r2 by simp
  have f2: "same_module w1 w2" using setValue_controls_frame [of w1 cs "s_name s" sc v] r2 by simp
  have "getSetting_index (settings w1) name = Some i"
    using assms(2) i by (simp add: w1_def s_def getSetting_index_update)
  then have "getSetting w1 name = Some s" using i by (simp add: getSetting_def w1_def)
  then have "\<exists>x. getValue w1 name = Inr x" by (rule getValue_ok) (simp add: s_def)
  then have g: "\<exists>x. getValue w2 name = Inr x" using getValue_same_module [OF f2] by simp
  obtain e3 w3 where r3: "call_callback w2 s name = (e3, w3)" by (cases "call_callback w2 s name")
  have e3: "e3 = None" using call_callback_ok [OF cb g] r3 by simp
  have f3: "same_module w2 w3" using call_callback_frame [of w2 s name] r3 by simp
  have st3: "settings w3 = (settings w)[i := s]"
    using f2 f3 by (simp add: same_module_def w1_def)
  have "\<forall>x \<in> set ((settings w)[i := s]). s_val x \<noteq> None"
  proof
    fix x assume "x \<in> set ((settings w)[i := s])"
    then have "x = s \<or> x \<in> set (settings w)" using set_update_subset_insert by fastforce
    then show "s_val x \<noteq> None" using assms(5) by (auto simp: s_def)
  qed
  then have sv: "fst (saveToCookie w3) = None" using st3 by (intro saveToCookie_ok) simp
  show ?thesis
    using assms(1,2,3) cs r2 e2 r3 e3 sv
    by (simp add: setValue_def s_def [symmetric] w1_def [symmetric] Let_def)
qed

lemma getValue_after_setValue:
  assumes "getSetting w name = Some s" and "s_val s = Some m"
    and "scope \<in> set scopes" and "scope \<notin> set (ignoredScopes w)"
    and "set scopes - {scope} \<subseteq> set (ignoredScopes w)"
  shows "getValue (snd (setValue w name scope v)) name = Inr (if v = JUndefined then JNull else v)"
proof -
  obtain i where idx: "getSetting_index (settings w) name = Some i" and s: "s = settings w ! i"
    using assms(1) by (auto simp: getSetting_def split: option.splits)
  have i: "i < length (settings w)" using getSetting_index_Some [OF idx] by simp
  define s' where "s' = (settings w ! i)\<lparr>s_val := Some (m(scope := v))\<rparr>"
  define w1 where "w1 = w\<lparr>settings := (settings w)[i := s']\<rparr>"
  have "same_module w1 (snd (setValue w name scope v))"
    unfolding w1_def s'_def using setValue_state [OF assms(3) idx] assms(2) s by simp
  then have eq: "getValue (snd (setValue w name scope v)) name = getValue w1 name"
    by (rule getValue_same_module)
  have idx1: "getSetting_index (settings w1) name = Some i"
    using idx i by (simp add: w1_def getSetting_index_update s'_def)
  have g: "getSetting w1 name = Some s'"
    using idx1 i by (simp add: getSetting_def w1_def)
  have v: "s_val s' = Some (m(scope := v))" by (simp add: s'_def)
  have ign: "ignoredScopes w1 = ignoredScopes w" by (simp add: w1_def)
  have "getValue w1 name = Inr (if v = JUndefined then JNull else v)"
    using getValue_only_scope [OF g v assms(3)] assms(4,5) ign by simp
  then show ?thesis using eq by simp
qed

lemma only_local_state:
  "settings only_local = map (seeded Map.empty) initial_settings"
  "ignoredScopes only_local = [''global'', ''get'']"
  "document only_local = checkbox_page"
proof -
  have l: "settings loaded_defaults = map (seeded Map.empty) initial_settings"
    "ignoredScopes loaded_defaults = []" "document loaded_defaults = checkbox_page"
    using loadSettings_effect [OF loadSettings_initial_ok, of Map.empty] distinct_initial
    by (simp_all add: loaded_defaults_def initial_world_def)
  show "settings only_local = map (seeded Map.empty) initial_settings"
    "ignoredScopes only_local = [''global'', ''get'']"
    "document only_local = checkbox_page"
    using l by (simp_all add: only_local_def setIgnoreScope_def scopes_def)
qed


end
